theory Spec2Isabelle
  imports Main "HOL-Library.Char_ord" "HOL-Library.List_Lexorder" "HOL-Library.Sublist"
    "HOL-Library.AList"
begin

section \<open>merge\_claude\_settings.py: merging the allow lists of Claude settings files\<close>

text \<open>
  The program finds every \<^verbatim>\<open>.claude/settings.local.json\<close> below a root directory, takes
  the \<^verbatim>\<open>permissions.allow\<close> list of each, unions them, and merges the union into the
  \<^verbatim>\<open>permissions.allow\<close> list of an output settings file.

  The embedding follows \<^verbatim>\<open>src/merge_claude_settings.py\<close> function by function. What the
  program takes from Python and its standard library is modelled in the first subsections:
  JSON values and the operations the program applies to them (with the exceptions Python
  raises on values of the wrong shape), sets of hashable values, the regular expression of
  the repair pass, and a file system. \<^verbatim>\<open>json.loads\<close> and \<^verbatim>\<open>json.dump\<close> are parameters
  (\<open>loads\<close>, \<open>dumps\<close>) of the functions that call them, so every theorem holds for any
  parser and printer; a reference parser and printer for a fragment of JSON are defined at
  the end of the definitions to run the model on concrete files.

  Strings are \<^typ>\<open>string\<close>, read as text in the ASCII range; their order is the
  lexicographic order of the characters, as Python's order on \<^verbatim>\<open>str\<close>. JSON numbers are
  integers (floats are left out).
\<close>

subsection \<open>JSON values and Python's operations on them\<close>

datatype json =
    JNull
  | JBool bool
  | JNum int
  | JStr string
  | JArr "json list"
  | JObj "(string \<times> json) list"
    \<comment> \<open>a \<^verbatim>\<open>dict\<close>: keys in insertion order, each key once\<close>

datatype pyerr =
    JSONDecodeError string
  | AttributeError
  | TypeError
  | KeyError
  | OSError

definition bind :: "pyerr + 'a \<Rightarrow> ('a \<Rightarrow> pyerr + 'b) \<Rightarrow> pyerr + 'b" where
  "bind r f = (case r of Inl e \<Rightarrow> Inl e | Inr x \<Rightarrow> f x)"

text \<open>\<^verbatim>\<open>x.get(k, d)\<close>: only a \<^verbatim>\<open>dict\<close> has \<^verbatim>\<open>get\<close>.\<close>

fun py_get :: "json \<Rightarrow> string \<Rightarrow> json \<Rightarrow> pyerr + json" where
  "py_get (JObj kvs) k d = Inr (case map_of kvs k of Some v \<Rightarrow> v | None \<Rightarrow> d)"
| "py_get _ k d = Inl AttributeError"

text \<open>\<^verbatim>\<open>k in x\<close> for a string \<open>k\<close>: a key of a \<^verbatim>\<open>dict\<close>, an element of a list, a substring
  of a string; the other values are not iterable.\<close>

fun py_in :: "string \<Rightarrow> json \<Rightarrow> pyerr + bool" where
  "py_in k (JObj kvs) = Inr (k \<in> set (map fst kvs))"
| "py_in k (JArr xs) = Inr (JStr k \<in> set xs)"
| "py_in k (JStr s) = Inr (sublist k s)"
| "py_in k _ = Inl TypeError"

text \<open>\<^verbatim>\<open>x[k]\<close> for a string \<open>k\<close>.\<close>

fun py_getitem :: "json \<Rightarrow> string \<Rightarrow> pyerr + json" where
  "py_getitem (JObj kvs) k = (case map_of kvs k of Some v \<Rightarrow> Inr v | None \<Rightarrow> Inl KeyError)"
| "py_getitem _ k = Inl TypeError"

text \<open>\<^verbatim>\<open>x[k] = v\<close> for a string \<open>k\<close>: an existing key keeps its place, a new one goes last.\<close>

fun py_setitem :: "json \<Rightarrow> string \<Rightarrow> json \<Rightarrow> pyerr + json" where
  "py_setitem (JObj kvs) k v = Inr (JObj (AList.update k v kvs))"
| "py_setitem _ k v = Inl TypeError"

subsection \<open>Python sets of hashable JSON values\<close>

text \<open>
  A set is the list of its elements, no two of them equal in Python's sense: \<^verbatim>\<open>True == 1\<close>
  and \<^verbatim>\<open>False == 0\<close>, every other two distinct JSON values differ. Lists and dicts are not
  hashable.
\<close>

type_synonym pyset = "json list"

fun hashable :: "json \<Rightarrow> bool" where
  "hashable (JArr _) = False"
| "hashable (JObj _) = False"
| "hashable _ = True"

fun py_key :: "json \<Rightarrow> json" where
  "py_key (JBool b) = JNum (if b then 1 else 0)"
| "py_key x = x"

definition py_eq :: "json \<Rightarrow> json \<Rightarrow> bool" where
  "py_eq x y = (py_key x = py_key y)"

definition set_add :: "pyset \<Rightarrow> json \<Rightarrow> pyset" where
  "set_add s x = (if list_ex (py_eq x) s then s else s @ [x])"

definition set_union :: "pyset \<Rightarrow> pyset \<Rightarrow> pyset" where
  "set_union s t = foldl set_add s t"

definition set_diff :: "pyset \<Rightarrow> pyset \<Rightarrow> pyset" where
  "set_diff s t = filter (\<lambda>x. \<not> list_ex (py_eq x) t) s"

text \<open>\<^verbatim>\<open>set(x)\<close>: the elements of a list, the characters of a string, the keys of a dict.\<close>

fun py_set :: "json \<Rightarrow> pyerr + pyset" where
  "py_set (JArr xs) = (if list_all hashable xs then Inr (foldl set_add [] xs) else Inl TypeError)"
| "py_set (JStr s) = Inr (foldl set_add [] (map (\<lambda>c. JStr [c]) s))"
| "py_set (JObj kvs) = Inr (foldl set_add [] (map (\<lambda>kv. JStr (fst kv)) kvs))"
| "py_set _ = Inl TypeError"

text \<open>
  \<^verbatim>\<open>sorted(list(s))\<close>. Strings compare with strings and numbers (booleans among them) with
  numbers; any other comparison raises \<^verbatim>\<open>TypeError\<close>, and sorting two or more elements
  compares every two that end up next to each other.
\<close>

fun is_str :: "json \<Rightarrow> bool" where
  "is_str (JStr _) = True"
| "is_str _ = False"

fun str_of :: "json \<Rightarrow> string" where
  "str_of (JStr s) = s"
| "str_of _ = []"

fun is_num :: "json \<Rightarrow> bool" where
  "is_num (JNum _) = True"
| "is_num (JBool _) = True"
| "is_num _ = False"

fun num_of :: "json \<Rightarrow> int" where
  "num_of (JNum i) = i"
| "num_of (JBool b) = (if b then 1 else 0)"
| "num_of _ = 0"

definition py_sorted :: "pyset \<Rightarrow> pyerr + json list" where
  "py_sorted s =
     (if length s \<le> 1 then Inr s
      else if list_all is_str s then Inr (map JStr (sort (map str_of s)))
      else if list_all is_num s then Inr (sort_key num_of s)
      else Inl TypeError)"

subsection \<open>The repair pass\<close>

text \<open>
  \<^verbatim>\<open>re.sub(r",\s*([}\]])", r"\1", content)\<close>: scanning from the left, a comma followed by
  any white space and then a closing bracket or brace is replaced by that bracket or
  brace, and the scan goes on behind it.
\<close>

definition re_space :: "char \<Rightarrow> bool" where
  "re_space c = (c \<in> set [CHR '' '', CHR 0x09, CHR 0x0A, CHR 0x0B, CHR 0x0C, CHR 0x0D,
                          CHR 0x1C, CHR 0x1D, CHR 0x1E, CHR 0x1F])"

function strip_trailing_commas :: "string \<Rightarrow> string" where
  "strip_trailing_commas [] = []"
| "strip_trailing_commas (c # cs) =
     (if c = CHR '',''
      then (case dropWhile re_space cs of
              [] \<Rightarrow> c # strip_trailing_commas cs
            | b # rest \<Rightarrow>
                if b = CHR ''}'' \<or> b = CHR '']'' then b # strip_trailing_commas rest
                else c # strip_trailing_commas cs)
      else c # strip_trailing_commas cs)"
  by pat_completeness auto
termination
proof (relation "measure length")
  fix c :: char and cs b rest
  assume "dropWhile re_space cs = b # rest"
  then have "length (b # rest) \<le> length cs"
    by (metis length_dropWhile_le)
  then show "(rest, c # cs) \<in> measure length" by simp
qed auto

subsection \<open>The file system\<close>

text \<open>
  A path is the list of its components below the file system's root; the file system lists
  the paths that exist, each with a directory or a file and its text. The order of the
  list stands for the order in which a directory scan yields the entries.
\<close>

type_synonym path = "string list"

datatype node = File string | Dir

type_synonym filesystem = "(path \<times> node) list"

definition node_at :: "filesystem \<Rightarrow> path \<Rightarrow> node option" where
  "node_at fs p = (if p = [] then Some Dir else map_of fs p)"

definition path_exists :: "filesystem \<Rightarrow> path \<Rightarrow> bool" where
  "path_exists fs p = (node_at fs p \<noteq> None)"

definition is_dir :: "filesystem \<Rightarrow> path \<Rightarrow> bool" where
  "is_dir fs p = (node_at fs p = Some Dir)"

text \<open>\<^verbatim>\<open>open(p, "r").read()\<close>\<close>

definition read_text :: "filesystem \<Rightarrow> path \<Rightarrow> pyerr + string" where
  "read_text fs p = (case node_at fs p of Some (File s) \<Rightarrow> Inr s | _ \<Rightarrow> Inl OSError)"

text \<open>\<^verbatim>\<open>open(p, "w").write(s)\<close>: the parent must be a directory and \<open>p\<close> must not be one.\<close>

definition can_write :: "filesystem \<Rightarrow> path \<Rightarrow> bool" where
  "can_write fs p = (p \<noteq> [] \<and> is_dir fs (butlast p) \<and> \<not> is_dir fs p)"

definition write_text :: "filesystem \<Rightarrow> path \<Rightarrow> string \<Rightarrow> pyerr + filesystem" where
  "write_text fs p s =
     (if can_write fs p then Inr (AList.update p (File s) fs) else Inl OSError)"

text \<open>\<^verbatim>\<open>root_dir.glob("**/.claude/settings.local.json")\<close>: the entries below the root, at any
  depth, whose last two components are \<^verbatim>\<open>.claude\<close> and \<^verbatim>\<open>settings.local.json\<close>.\<close>

definition matches_pattern :: "path \<Rightarrow> path \<Rightarrow> bool" where
  "matches_pattern root_dir p =
     (prefix root_dir p \<and>
      suffix [''.claude'', ''settings.local.json''] (drop (length root_dir) p))"

definition glob_settings :: "filesystem \<Rightarrow> path \<Rightarrow> path list" where
  "glob_settings fs root_dir = filter (matches_pattern root_dir) (map fst fs)"

subsection \<open>What the program prints\<close>

datatype shown_path = Relative path | Absolute path

datatype msg =
    ErrorParsingJSON path string      \<comment> \<open>line 59, stderr\<close>
  | ErrorReading path pyerr           \<comment> \<open>line 62, stderr\<close>
  | FoundPermissions nat shown_path   \<comment> \<open>line 89\<close>
  | FixedJSON path                    \<comment> \<open>line 124\<close>
  | ReadingExisting path              \<comment> \<open>line 128\<close>
  | FoundExisting nat                 \<comment> \<open>line 136\<close>
  | CouldNotParse pyerr               \<comment> \<open>line 141, stderr\<close>
  | WillPreserveOtherSettings         \<comment> \<open>line 144, stderr\<close>
  | AddedNew nat                      \<comment> \<open>line 173\<close>
  | NoNewPermissions                  \<comment> \<open>line 175\<close>
  | SuccessfullyUpdated path          \<comment> \<open>line 177\<close>
  | TotalUnique nat                   \<comment> \<open>line 178\<close>
  | ErrorWriting pyerr                \<comment> \<open>line 181, stderr\<close>
  | DirectoryDoesNotExist path        \<comment> \<open>line 217, stderr\<close>
  | NotADirectory path                \<comment> \<open>line 221, stderr\<close>
  | Searching path                    \<comment> \<open>lines 224, 225\<close>
  | NoFilesFound                      \<comment> \<open>line 231\<close>
  | FoundFiles nat                    \<comment> \<open>line 234\<close>
  | NoPermissionsFound                \<comment> \<open>line 240\<close>
  | TotalFound nat                    \<comment> \<open>line 243\<close>
  | MergedList "json list"            \<comment> \<open>lines 246 to 248\<close>
  | Summary nat nat path              \<comment> \<open>lines 254 to 257\<close>
  | Traceback pyerr                   \<comment> \<open>an exception nothing catches\<close>

subsection \<open>find\_settings\_files\<close>

text \<open>\<^verbatim>\<open>settings_files.sort()\<close> sorts \<^verbatim>\<open>Path\<close> objects; \<^verbatim>\<open>pathlib\<close> compares two paths
  by their lists of components, which is the order of \<^typ>\<open>path\<close>.\<close>

definition find_settings_files :: "filesystem \<Rightarrow> path \<Rightarrow> path list" where
  "find_settings_files fs root_dir = sort (glob_settings fs root_dir)"

subsection \<open>extract\_allow\_permissions\<close>

definition extract_allow_permissions ::
  "(string \<Rightarrow> string + json) \<Rightarrow> filesystem \<Rightarrow> path \<Rightarrow> pyset \<times> msg list" where
  "extract_allow_permissions loads fs file_path =
     (case read_text fs file_path of
        Inl e \<Rightarrow> ([], [ErrorReading file_path e])
      | Inr content \<Rightarrow>
          (case loads content of
             Inl e \<Rightarrow> ([], [ErrorParsingJSON file_path e])
           | Inr data \<Rightarrow>
               (case bind (py_get data ''permissions'' (JObj [])) (\<lambda>permissions.
                     bind (py_get permissions ''allow'' (JArr [])) py_set) of
                  Inl e \<Rightarrow> ([], [ErrorReading file_path e])
                | Inr s \<Rightarrow> (s, []))))"

subsection \<open>merge\_permissions\<close>

definition display_path :: "path \<Rightarrow> path \<Rightarrow> shown_path" where
  "display_path root_dir file_path =
     (if prefix root_dir file_path then Relative (drop (length root_dir) file_path)
      else Absolute file_path)"

fun merge_loop ::
  "(string \<Rightarrow> string + json) \<Rightarrow> filesystem \<Rightarrow> path \<Rightarrow> path list \<Rightarrow> pyset \<Rightarrow> pyset \<times> msg list"
  where
  "merge_loop loads fs root_dir [] all_permissions = (all_permissions, [])"
| "merge_loop loads fs root_dir (file_path # rest) all_permissions =
     (case extract_allow_permissions loads fs file_path of
        (permissions, log1) \<Rightarrow>
          if permissions \<noteq> []
          then (case merge_loop loads fs root_dir rest (set_union all_permissions permissions) of
                  (result, log2) \<Rightarrow>
                    (result,
                     log1 @ [FoundPermissions (length permissions)
                               (display_path root_dir file_path)] @ log2))
          else (case merge_loop loads fs root_dir rest all_permissions of
                  (result, log2) \<Rightarrow> (result, log1 @ log2)))"

definition merge_permissions ::
  "(string \<Rightarrow> string + json) \<Rightarrow> filesystem \<Rightarrow> path list \<Rightarrow> path \<Rightarrow> pyset \<times> msg list" where
  "merge_permissions loads fs settings_files root_dir =
     merge_loop loads fs root_dir settings_files []"

subsection \<open>update\_settings\_file\<close>

text \<open>Lines 115 to 126: parse the text, and parse it again after the repair pass when the
  first parse fails. The second failure is the exception that leaves the block.\<close>

definition load_existing ::
  "(string \<Rightarrow> string + json) \<Rightarrow> path \<Rightarrow> string \<Rightarrow> pyerr + json \<times> msg list" where
  "load_existing loads output_path content =
     (case loads content of
        Inr existing_settings \<Rightarrow> Inr (existing_settings, [])
      | Inl _ \<Rightarrow>
          (case loads (strip_trailing_commas content) of
             Inl e \<Rightarrow> Inl (JSONDecodeError e)
           | Inr existing_settings \<Rightarrow> Inr (existing_settings, [FixedJSON output_path])))"

text \<open>Lines 131 to 135: the set of the existing \<^verbatim>\<open>permissions.allow\<close>, when both keys are
  there.\<close>

definition existing_allow_of :: "json \<Rightarrow> pyerr + pyset option" where
  "existing_allow_of existing_settings =
     bind (py_in ''permissions'' existing_settings) (\<lambda>has_permissions.
       if \<not> has_permissions then Inr None
       else bind (py_getitem existing_settings ''permissions'') (\<lambda>permissions.
            bind (py_in ''allow'' permissions) (\<lambda>has_allow.
              if \<not> has_allow then Inr None
              else bind (py_getitem permissions ''allow'') (\<lambda>allow.
                   bind (py_set allow) (\<lambda>s. Inr (Some s))))))"

text \<open>Lines 106 to 147: \<open>existing_settings\<close>, \<open>existing_allow\<close> and the messages, as they
  stand when the \<^verbatim>\<open>if\<close> block is left; the handler of line 140 keeps whatever was
  assigned before the exception.\<close>

definition could_not_parse :: "pyerr \<Rightarrow> msg list" where
  "could_not_parse e = [CouldNotParse e, WillPreserveOtherSettings]"

definition read_existing ::
  "(string \<Rightarrow> string + json) \<Rightarrow> filesystem \<Rightarrow> path \<Rightarrow> json \<times> pyset \<times> msg list" where
  "read_existing loads fs output_path =
     (if \<not> path_exists fs output_path then (JObj [], [], [])
      else
        (case read_text fs output_path of
           Inl e \<Rightarrow> (JObj [], [], could_not_parse e)
         | Inr content \<Rightarrow>
             (case load_existing loads output_path content of
                Inl e \<Rightarrow> (JObj [], [], could_not_parse e)
              | Inr (existing_settings, log1) \<Rightarrow>
                  (case existing_allow_of existing_settings of
                     Inl e \<Rightarrow>
                       (existing_settings, [],
                        log1 @ [ReadingExisting output_path] @ could_not_parse e)
                   | Inr None \<Rightarrow>
                       (existing_settings, [], log1 @ [ReadingExisting output_path])
                   | Inr (Some existing_allow) \<Rightarrow>
                       (existing_settings, existing_allow,
                        log1 @ [ReadingExisting output_path,
                                FoundExisting (length existing_allow)])))))"

text \<open>Lines 149 to 163: the document that is written.\<close>

definition fill_default :: "string \<Rightarrow> json \<Rightarrow> pyerr + json" where
  "fill_default k permissions =
     bind (py_in k permissions) (\<lambda>has.
       if has then Inr permissions else py_setitem permissions k (JArr []))"

definition merged_settings :: "json \<Rightarrow> pyset \<Rightarrow> pyset \<Rightarrow> pyerr + json" where
  "merged_settings existing_settings existing_allow permissions =
     bind (py_in ''permissions'' existing_settings) (\<lambda>has_permissions.
     bind (if has_permissions then Inr existing_settings
           else py_setitem existing_settings ''permissions'' (JObj [])) (\<lambda>settings.
     bind (py_sorted (set_union existing_allow permissions)) (\<lambda>sorted_allow.
     bind (py_getitem settings ''permissions'') (\<lambda>p0.
     bind (py_setitem p0 ''allow'' (JArr sorted_allow)) (\<lambda>p1.
     bind (fill_default ''deny'' p1) (\<lambda>p2.
     bind (fill_default ''ask'' p2) (\<lambda>p3.
     py_setitem settings ''permissions'' p3)))))))"

text \<open>The result of \<open>update_settings_file\<close>: \<open>None\<close> when it returns, \<open>Some 1\<close> when the
  handler of line 180 ends the process with \<^verbatim>\<open>sys.exit(1)\<close>; then the file system and the
  messages.\<close>

definition update_settings_file ::
  "(string \<Rightarrow> string + json) \<Rightarrow> (json \<Rightarrow> string) \<Rightarrow> path \<Rightarrow> pyset \<Rightarrow> filesystem \<Rightarrow>
     nat option \<times> filesystem \<times> msg list" where
  "update_settings_file loads dumps output_path permissions fs =
     (case read_existing loads fs output_path of
        (existing_settings, existing_allow, log1) \<Rightarrow>
          (case bind (merged_settings existing_settings existing_allow permissions) (\<lambda>settings.
                  write_text fs output_path (dumps settings @ [CHR 0x0A])) of
             Inl e \<Rightarrow> (Some 1, fs, log1 @ [ErrorWriting e])
           | Inr fs' \<Rightarrow>
               (None, fs',
                log1 @
                [if set_diff permissions existing_allow \<noteq> []
                 then AddedNew (length (set_diff permissions existing_allow))
                 else NoNewPermissions,
                 SuccessfullyUpdated output_path,
                 TotalUnique (length (set_union existing_allow permissions))])))"

subsection \<open>main\<close>

text \<open>The arguments are taken as parsed and resolved: the root directory, the output path
  and the verbose flag. The result is the exit status, the file system and the messages.\<close>

definition main ::
  "(string \<Rightarrow> string + json) \<Rightarrow> (json \<Rightarrow> string) \<Rightarrow> path \<Rightarrow> path \<Rightarrow> bool \<Rightarrow> filesystem \<Rightarrow>
     nat \<times> filesystem \<times> msg list" where
  "main loads dumps root_dir output_path verbose fs =
     (if \<not> path_exists fs root_dir then (1, fs, [DirectoryDoesNotExist root_dir])
      else if \<not> is_dir fs root_dir then (1, fs, [NotADirectory root_dir])
      else
        let settings_files = find_settings_files fs root_dir in
        if settings_files = [] then (0, fs, [Searching root_dir, NoFilesFound])
        else
          (case merge_permissions loads fs settings_files root_dir of
             (merged_permissions, log1) \<Rightarrow>
               let log2 = [Searching root_dir, FoundFiles (length settings_files)] @ log1 in
               if merged_permissions = [] then (0, fs, log2 @ [NoPermissionsFound])
               else
                 (case (if verbose then py_sorted merged_permissions else Inr []) of
                    Inl e \<Rightarrow>
                      (1, fs, log2 @ [TotalFound (length merged_permissions), Traceback e])
                  | Inr listed \<Rightarrow>
                      let log3 = log2 @ [TotalFound (length merged_permissions)] @
                                 (if verbose then [MergedList listed] else []) in
                      (case update_settings_file loads dumps output_path merged_permissions fs of
                         (Some code, fs', log4) \<Rightarrow> (code, fs', log3 @ log4)
                       | (None, fs', log4) \<Rightarrow>
                           (0, fs',
                            log3 @ log4 @
                            [Summary (length settings_files) (length merged_permissions)
                               output_path])))))"

subsection \<open>Vocabulary of the statements\<close>

text \<open>The settings document of the data model: a JSON object whose \<^verbatim>\<open>permissions\<close>, when
  present, is an object whose \<^verbatim>\<open>allow\<close>, when present, is a list of strings.\<close>

definition settings_document :: "json \<Rightarrow> bool" where
  "settings_document d =
     (case d of
        JObj kvs \<Rightarrow>
          (case map_of kvs ''permissions'' of
             None \<Rightarrow> True
           | Some (JObj ps) \<Rightarrow>
               (case map_of ps ''allow'' of
                  None \<Rightarrow> True
                | Some (JArr xs) \<Rightarrow> list_all is_str xs
                | Some _ \<Rightarrow> False)
           | Some _ \<Rightarrow> False)
      | _ \<Rightarrow> False)"

text \<open>The list at \<^verbatim>\<open>permissions.allow\<close> of a document, empty when a key is missing.\<close>

definition allow_of :: "json \<Rightarrow> json list" where
  "allow_of d =
     (case d of
        JObj kvs \<Rightarrow>
          (case map_of kvs ''permissions'' of
             Some (JObj ps) \<Rightarrow> (case map_of ps ''allow'' of Some (JArr xs) \<Rightarrow> xs | _ \<Rightarrow> [])
           | _ \<Rightarrow> [])
      | _ \<Rightarrow> [])"

text \<open>The strings of a list of JSON values.\<close>

definition strings_of :: "json list \<Rightarrow> string set" where
  "strings_of xs = str_of ` set (filter is_str xs)"

text \<open>The top-level fields of a document and the fields of its \<^verbatim>\<open>permissions\<close>.\<close>

definition fields_of :: "json \<Rightarrow> (string \<times> json) list" where
  "fields_of d = (case d of JObj kvs \<Rightarrow> kvs | _ \<Rightarrow> [])"

definition permissions_of :: "(string \<times> json) list \<Rightarrow> json" where
  "permissions_of kvs = (case map_of kvs ''permissions'' of Some p \<Rightarrow> p | None \<Rightarrow> JObj [])"

text \<open>The document that the writer parses from the output file, directly or after the
  repair pass; none when the file is absent, cannot be read, or fails both parses.\<close>

definition existing_document :: "(string \<Rightarrow> string + json) \<Rightarrow> filesystem \<Rightarrow> path \<Rightarrow> json option"
  where
  "existing_document loads fs output_path =
     (case read_text fs output_path of
        Inl _ \<Rightarrow> None
      | Inr content \<Rightarrow>
          (case load_existing loads output_path content of
             Inl _ \<Rightarrow> None
           | Inr (d, _) \<Rightarrow> Some d))"

text \<open>The document that lines 149 to 163 build from what lines 106 to 147 leave.\<close>

definition new_settings ::
  "(string \<Rightarrow> string + json) \<Rightarrow> filesystem \<Rightarrow> path \<Rightarrow> pyset \<Rightarrow> pyerr + json" where
  "new_settings loads fs output_path permissions =
     (case read_existing loads fs output_path of
        (existing_settings, existing_allow, _) \<Rightarrow>
          merged_settings existing_settings existing_allow permissions)"

text \<open>The new \<^verbatim>\<open>permissions\<close> object on an object with the fields \<open>ps\<close>.\<close>

definition add_default :: "string \<Rightarrow> (string \<times> json) list \<Rightarrow> (string \<times> json) list" where
  "add_default k ps = (if k \<in> fst ` set ps then ps else AList.update k (JArr []) ps)"

definition new_permissions_object :: "json list \<Rightarrow> (string \<times> json) list \<Rightarrow> json" where
  "new_permissions_object sorted_allow ps =
     JObj (add_default ''ask'' (add_default ''deny''
            (AList.update ''allow'' (JArr sorted_allow) ps)))"

text \<open>\<^verbatim>\<open>str(p)\<close> of an absolute path.\<close>

definition path_string :: "path \<Rightarrow> string" where
  "path_string p = (if p = [] then ''/'' else concat (map (\<lambda>c. CHR ''/'' # c) p))"

text \<open>What every discovered file contributes together.\<close>

definition extracted :: "(string \<Rightarrow> string + json) \<Rightarrow> filesystem \<Rightarrow> path list \<Rightarrow> json set" where
  "extracted loads fs files = (\<Union>f \<in> set files. set (fst (extract_allow_permissions loads fs f)))"

subsection \<open>A reference parser and printer\<close>

text \<open>
  \<open>json_loads\<close> parses the fragment of JSON without floats and without \<^verbatim>\<open>\u\<close> escapes;
  \<open>json_dumps\<close> prints a value as \<^verbatim>\<open>json.dumps(v, indent=2, ensure_ascii=False)\<close> does.
  They stand for the library where the model is run on the text of a concrete file.
\<close>

definition json_ws :: "char \<Rightarrow> bool" where
  "json_ws c = (c = CHR '' '' \<or> c = CHR 0x09 \<or> c = CHR 0x0A \<or> c = CHR 0x0D)"

definition skip_ws :: "string \<Rightarrow> string" where
  "skip_ws s = dropWhile json_ws s"

definition unescape :: "char \<Rightarrow> char option" where
  "unescape c =
     (if c = CHR 0x22 \<or> c = CHR 0x5C \<or> c = CHR ''/'' then Some c
      else if c = CHR ''n'' then Some (CHR 0x0A)
      else if c = CHR ''t'' then Some (CHR 0x09)
      else if c = CHR ''r'' then Some (CHR 0x0D)
      else if c = CHR ''b'' then Some (CHR 0x08)
      else if c = CHR ''f'' then Some (CHR 0x0C)
      else None)"

text \<open>The characters of a string literal behind its opening quote.\<close>

fun parse_chars :: "string \<Rightarrow> string \<Rightarrow> (string \<times> string) option" where
  "parse_chars [] acc = None"
| "parse_chars [c] acc = (if c = CHR 0x22 then Some (rev acc, []) else None)"
| "parse_chars (c # d # rest) acc =
     (if c = CHR 0x22 then Some (rev acc, d # rest)
      else if c = CHR 0x5C
      then (case unescape d of None \<Rightarrow> None | Some u \<Rightarrow> parse_chars rest (u # acc))
      else if of_char c < (32 :: nat) then None
      else parse_chars (d # rest) (c # acc))"

definition is_digit :: "char \<Rightarrow> bool" where
  "is_digit c = (CHR ''0'' \<le> c \<and> c \<le> CHR ''9'')"

definition digits_value :: "string \<Rightarrow> nat" where
  "digits_value ds = foldl (\<lambda>n c. 10 * n + (of_char c - 48)) 0 ds"

definition parse_nat :: "string \<Rightarrow> (nat \<times> string) option" where
  "parse_nat s =
     (let ds = takeWhile is_digit s; rest = dropWhile is_digit s in
      if ds = [] \<or> (length ds > 1 \<and> hd ds = CHR ''0'') then None
      else if rest \<noteq> [] \<and> hd rest \<in> set [CHR ''.'', CHR ''e'', CHR ''E''] then None
      else Some (digits_value ds, rest))"

definition parse_number :: "string \<Rightarrow> (json \<times> string) option" where
  "parse_number s =
     (case s of
        [] \<Rightarrow> None
      | c # cs \<Rightarrow>
          if c = CHR ''-''
          then map_option (\<lambda>(n, rest). (JNum (- int n), rest)) (parse_nat cs)
          else map_option (\<lambda>(n, rest). (JNum (int n), rest)) (parse_nat s))"

definition parse_literal :: "string \<Rightarrow> (json \<times> string) option" where
  "parse_literal s =
     (if prefix ''true'' s then Some (JBool True, drop 4 s)
      else if prefix ''false'' s then Some (JBool False, drop 5 s)
      else if prefix ''null'' s then Some (JNull, drop 4 s)
      else parse_number s)"

text \<open>The first argument bounds the depth of the recursion; \<open>json_loads\<close> starts with more
  than the text can use.\<close>

fun parse_value :: "nat \<Rightarrow> string \<Rightarrow> (json \<times> string) option"
  and parse_elements :: "nat \<Rightarrow> string \<Rightarrow> json list \<Rightarrow> (json \<times> string) option"
  and parse_members :: "nat \<Rightarrow> string \<Rightarrow> (string \<times> json) list \<Rightarrow> (json \<times> string) option"
  where
  "parse_value 0 s = None"
| "parse_value (Suc n) s =
     (case skip_ws s of
        [] \<Rightarrow> None
      | c # r \<Rightarrow>
          if c = CHR ''{''
          then (if prefix ''}'' (skip_ws r) then Some (JObj [], tl (skip_ws r))
                else parse_members n r [])
          else if c = CHR ''[''
          then (if prefix '']'' (skip_ws r) then Some (JArr [], tl (skip_ws r))
                else parse_elements n r [])
          else if c = CHR 0x22
          then map_option (\<lambda>(str, rest). (JStr str, rest)) (parse_chars r [])
          else parse_literal (c # r))"
| "parse_elements 0 s acc = None"
| "parse_elements (Suc n) s acc =
     (case parse_value n s of
        None \<Rightarrow> None
      | Some (v, r) \<Rightarrow>
          (case skip_ws r of
             [] \<Rightarrow> None
           | c # r' \<Rightarrow>
               if c = CHR '','' then parse_elements n r' (acc @ [v])
               else if c = CHR '']'' then Some (JArr (acc @ [v]), r')
               else None))"
| "parse_members 0 s acc = None"
| "parse_members (Suc n) s acc =
     (case skip_ws s of
        [] \<Rightarrow> None
      | q # r \<Rightarrow>
          if q \<noteq> CHR 0x22 then None
          else
            (case parse_chars r [] of
               None \<Rightarrow> None
             | Some (k, r1) \<Rightarrow>
                 (case skip_ws r1 of
                    [] \<Rightarrow> None
                  | c # r2 \<Rightarrow>
                      if c \<noteq> CHR '':'' then None
                      else
                        (case parse_value n r2 of
                           None \<Rightarrow> None
                         | Some (v, r3) \<Rightarrow>
                             (case skip_ws r3 of
                                [] \<Rightarrow> None
                              | d # r4 \<Rightarrow>
                                  if d = CHR '','' then parse_members n r4 (AList.update k v acc)
                                  else if d = CHR ''}''
                                  then Some (JObj (AList.update k v acc), r4)
                                  else None)))))"

definition json_loads :: "string \<Rightarrow> string + json" where
  "json_loads s =
     (case parse_value (2 * length s + 2) s of
        None \<Rightarrow> Inl ''Expecting value''
      | Some (v, rest) \<Rightarrow> if skip_ws rest = [] then Inr v else Inl ''Extra data'')"

definition hex_digit :: "nat \<Rightarrow> char" where
  "hex_digit n = (if n < 10 then char_of (48 + n) else char_of (87 + n))"

definition escape :: "char \<Rightarrow> string" where
  "escape c =
     (if c = CHR 0x22 then [CHR 0x5C, CHR 0x22]
      else if c = CHR 0x5C then [CHR 0x5C, CHR 0x5C]
      else if c = CHR 0x0A then [CHR 0x5C, CHR ''n'']
      else if c = CHR 0x0D then [CHR 0x5C, CHR ''r'']
      else if c = CHR 0x09 then [CHR 0x5C, CHR ''t'']
      else if c = CHR 0x08 then [CHR 0x5C, CHR ''b'']
      else if c = CHR 0x0C then [CHR 0x5C, CHR ''f'']
      else if of_char c < (32 :: nat)
      then [CHR 0x5C, CHR ''u'', CHR ''0'', CHR ''0'',
            hex_digit (of_char c div 16), hex_digit (of_char c mod 16)]
      else [c])"

definition quote :: "string \<Rightarrow> string" where
  "quote s = [CHR 0x22] @ concat (map escape s) @ [CHR 0x22]"

fun show_nat :: "nat \<Rightarrow> string" where
  "show_nat n = (if n < 10 then [char_of (48 + n)] else show_nat (n div 10) @ [char_of (48 + n mod 10)])"

definition show_int :: "int \<Rightarrow> string" where
  "show_int i = (if i < 0 then CHR ''-'' # show_nat (nat (- i)) else show_nat (nat i))"

definition newline_indent :: "nat \<Rightarrow> string" where
  "newline_indent level = CHR 0x0A # replicate (2 * level) CHR '' ''"

definition join_items :: "nat \<Rightarrow> string list \<Rightarrow> string" where
  "join_items level items =
     concat (map (\<lambda>(i, item). (if i = 0 then [] else '','') @ newline_indent (Suc level) @ item)
               (enumerate 0 items))
     @ newline_indent level"

fun dumps_at :: "nat \<Rightarrow> json \<Rightarrow> string" where
  "dumps_at level JNull = ''null''"
| "dumps_at level (JBool b) = (if b then ''true'' else ''false'')"
| "dumps_at level (JNum i) = show_int i"
| "dumps_at level (JStr s) = quote s"
| "dumps_at level (JArr xs) =
     (if xs = [] then ''[]''
      else ''['' @ join_items level (map (dumps_at (Suc level)) xs) @ '']'')"
| "dumps_at level (JObj kvs) =
     (if kvs = [] then ''{}''
      else ''{'' @ join_items level
                    (map (\<lambda>kv. quote (fst kv) @ '': '' @ dumps_at (Suc level) (snd kv)) kvs)
           @ ''}'')"

definition json_dumps :: "json \<Rightarrow> string" where
  "json_dumps v = dumps_at 0 v"

subsection \<open>The layout of the printed text\<close>

text \<open>
  The words ``indented (2-space) JSON'': \<open>indent2\<close> moves every line of a text but the first
  two spaces in, and \<open>laid_out\<close> puts an opening bracket, the items, each on lines of its
  own and two spaces in, with commas between them, and the closing bracket on a line of
  its own.
\<close>

definition indent2 :: "string \<Rightarrow> string" where
  "indent2 s =
     concat (map (\<lambda>c. if c = CHR 0x0A then [CHR 0x0A, CHR '' '', CHR '' ''] else [c]) s)"


subsection \<open>An example tree\<close>

text \<open>Three settings files below \<^verbatim>\<open>/proj\<close>, one of them cut off in the middle, and the
  directory of the output file.\<close>

definition example_root :: path where
  "example_root = [''proj'']"

definition example_output :: path where
  "example_output = [''proj'', ''conf'', ''settings.json'']"

definition example_inputs :: filesystem where
  "example_inputs =
     [([''proj''], Dir),
      ([''proj'', ''conf''], Dir),
      ([''proj'', ''a''], Dir),
      ([''proj'', ''a'', ''.claude''], Dir),
      ([''proj'', ''a'', ''.claude'', ''settings.local.json''],
         File ''{\"permissions\": {\"allow\": [\"Read(*.py)\"]}}''),
      ([''proj'', ''bad''], Dir),
      ([''proj'', ''bad'', ''.claude''], Dir),
      ([''proj'', ''bad'', ''.claude'', ''settings.local.json''],
         File ''{\"permissions\": {\"allow\": [\"Edit\"''),
      ([''proj'', ''a.b''], Dir),
      ([''proj'', ''a.b'', ''.claude''], Dir),
      ([''proj'', ''a.b'', ''.claude'', ''settings.local.json''],
         File ''{\"permissions\": {\"allow\": [\"Write(*.md)\", \"Read(*.py)\"]}}'')]"

definition with_output :: "string \<Rightarrow> filesystem" where
  "with_output content = example_inputs @ [(example_output, File content)]"

section \<open>Lemmas\<close>

subsection \<open>Exceptions\<close>

lemma bind_Inr [simp]: "bind (Inr x) f = f x"
  by (simp add: bind_def)

lemma bind_Inl [simp]: "bind (Inl e) f = Inl e"
  by (simp add: bind_def)

subsection \<open>Sets of strings\<close>

lemma py_eq_str: "is_str x \<Longrightarrow> py_eq x y \<longleftrightarrow> x = y"
  by (cases x; cases y) (auto simp: py_eq_def)

lemma list_ex_py_eq_str: "is_str x \<Longrightarrow> list_ex (py_eq x) s \<longleftrightarrow> x \<in> set s"
  by (auto simp: list_ex_iff py_eq_str)

lemma set_set_add: "is_str x \<Longrightarrow> set (set_add s x) = insert x (set s)"
  by (auto simp: set_add_def list_ex_py_eq_str)

lemma distinct_set_add: "is_str x \<Longrightarrow> distinct s \<Longrightarrow> distinct (set_add s x)"
  by (auto simp: set_add_def list_ex_py_eq_str)

lemma set_foldl_set_add:
  "list_all is_str t \<Longrightarrow> set (foldl set_add s t) = set s \<union> set t"
  by (induction t arbitrary: s) (auto simp: set_set_add)

lemma distinct_foldl_set_add:
  "list_all is_str t \<Longrightarrow> distinct s \<Longrightarrow> distinct (foldl set_add s t)"
  by (induction t arbitrary: s) (auto simp: distinct_set_add)

lemma set_set_union: "list_all is_str t \<Longrightarrow> set (set_union s t) = set s \<union> set t"
  by (simp add: set_union_def set_foldl_set_add)

lemma distinct_set_union: "list_all is_str t \<Longrightarrow> distinct s \<Longrightarrow> distinct (set_union s t)"
  by (simp add: set_union_def distinct_foldl_set_add)

lemma set_set_diff: "list_all is_str s \<Longrightarrow> set (set_diff s t) = set s - set t"
  by (auto simp: set_diff_def list_all_iff list_ex_py_eq_str)

lemma set_add_superset: "set s \<subseteq> set (set_add s x)"
  by (auto simp: set_add_def)

lemma set_foldl_superset: "set s \<subseteq> set (foldl set_add s t)"
proof (induction t arbitrary: s)
  case (Cons x t)
  show ?case using Cons [of "set_add s x"] set_add_superset [of s x] by auto
qed simp

lemma set_union_keeps_strings:
  "list_all is_str t \<Longrightarrow> set t \<subseteq> set (set_union s t)"
proof (induction t arbitrary: s)
  case (Cons x t)
  have "x \<in> set (set_add s x)" using Cons.prems by (simp add: set_set_add)
  then have "x \<in> set (foldl set_add (set_add s x) t)" using set_foldl_superset by blast
  moreover have "set t \<subseteq> set (foldl set_add (set_add s x) t)"
    using Cons.IH [of "set_add s x"] Cons.prems by (simp add: set_union_def)
  ultimately show ?case by (simp add: set_union_def)
qed (simp add: set_union_def)

lemma JStr_str_of: "is_str x \<Longrightarrow> JStr (str_of x) = x"
  by (cases x) auto

lemma map_JStr_str_of: "list_all is_str s \<Longrightarrow> map JStr (map str_of s) = s"
  by (induction s) (auto simp: JStr_str_of)

subsection \<open>Sorting\<close>

lemma py_sorted_Inl: "py_sorted s = Inl e \<Longrightarrow> e = TypeError"
  by (auto simp: py_sorted_def split: if_splits)

lemma set_py_sorted: "py_sorted s = Inr xs \<Longrightarrow> set xs = set s"
proof -
  assume a: "py_sorted s = Inr xs"
  show ?thesis
  proof (cases "length s \<le> 1")
    case True
    then show ?thesis using a by (simp add: py_sorted_def)
  next
    case False
    show ?thesis
    proof (cases "list_all is_str s")
      case True
      then have "xs = map JStr (sort (map str_of s))" using a False by (simp add: py_sorted_def)
      then have "set xs = JStr ` set (map str_of s)" by simp
      also have "\<dots> = set (map JStr (map str_of s))" by (simp add: image_image)
      also have "\<dots> = set s" using True by (simp only: map_JStr_str_of)
      finally show ?thesis .
    next
      case nstr: False
      then show ?thesis using a False by (auto simp: py_sorted_def split: if_splits)
    qed
  qed
qed

lemma py_sorted_strings:
  assumes "list_all is_str s" "distinct s"
  shows "py_sorted s = Inr (map JStr (sorted_list_of_set (str_of ` set s)))"
proof -
  have inj: "inj_on str_of (set s)"
  proof (rule inj_onI)
    fix x y assume "x \<in> set s" "y \<in> set s" "str_of x = str_of y"
    moreover from this assms(1) have "is_str x" "is_str y" by (auto simp: list_all_iff)
    ultimately show "x = y" by (metis JStr_str_of)
  qed
  then have d: "distinct (map str_of s)" using assms(2) by (simp add: distinct_map)
  have s: "sort (map str_of s) = sorted_list_of_set (str_of ` set s)"
    using d by (metis list.set_map sorted_list_of_set_sort_remdups distinct_remdups_id)
  show ?thesis
  proof (cases "length s \<le> 1")
    case True
    then consider "s = []" | x where "s = [x]"
      by (cases s) (auto simp: le_Suc_eq)
    then show ?thesis
    proof cases
      case 1
      then show ?thesis by (simp add: py_sorted_def)
    next
      case 2
      then show ?thesis using assms(1) by (cases x) (simp_all add: py_sorted_def)
    qed
  next
    case False
    then show ?thesis using assms(1) s by (simp add: py_sorted_def)
  qed
qed

subsection \<open>The document that is written\<close>

lemma fill_default_JObj: "fill_default k (JObj ps) = Inr (JObj (add_default k ps))"
  by (simp add: fill_default_def add_default_def)

lemma map_of_None_iff_keys: "map_of kvs k = None \<longleftrightarrow> k \<notin> fst ` set kvs"
  by (simp add: map_of_eq_None_iff)

lemma merged_settings_JObj:
  "merged_settings (JObj kvs) ea P =
     (case permissions_of kvs of
        JObj ps \<Rightarrow>
          (case py_sorted (set_union ea P) of
             Inl e \<Rightarrow> Inl e
           | Inr sa \<Rightarrow> Inr (JObj (AList.update ''permissions'' (new_permissions_object sa ps) kvs)))
      | _ \<Rightarrow> (case py_sorted (set_union ea P) of Inl e \<Rightarrow> Inl e | Inr sa \<Rightarrow> Inl TypeError))"
proof (cases "map_of kvs ''permissions''")
  case None
  then have k: "''permissions'' \<notin> fst ` set kvs" by (simp add: map_of_None_iff_keys)
  show ?thesis
    using None k
    by (cases "py_sorted (set_union ea P)")
       (simp_all add: merged_settings_def permissions_of_def fill_default_JObj
          new_permissions_object_def update_conv')
next
  case (Some p)
  then have k: "''permissions'' \<in> fst ` set kvs" by (metis map_of_None_iff_keys option.distinct(1))
  show ?thesis
    using Some k
    by (cases "py_sorted (set_union ea P)"; cases p)
       (simp_all add: merged_settings_def permissions_of_def fill_default_JObj
          new_permissions_object_def)
qed

lemma merged_settings_not_JObj:
  "\<not> (\<exists>kvs. es = JObj kvs) \<Longrightarrow> merged_settings es ea P = Inl TypeError"
  by (cases es) (auto simp: merged_settings_def bind_def split: sum.splits dest: py_sorted_Inl)

lemma map_of_add_default:
  "map_of (add_default k ps) k' =
     (if k' = k \<and> k \<notin> fst ` set ps then Some (JArr []) else map_of ps k')"
  by (simp add: add_default_def update_conv')

lemma allow_of_new_settings:
  "allow_of (JObj (AList.update ''permissions'' (new_permissions_object sa ps) kvs)) = sa"
  by (simp add: allow_of_def new_permissions_object_def update_conv' map_of_add_default)

lemma merged_settings_InrD:
  assumes "merged_settings es ea P = Inr doc"
  shows "\<exists>kvs ps sa. es = JObj kvs \<and> permissions_of kvs = JObj ps \<and>
           py_sorted (set_union ea P) = Inr sa \<and>
           doc = JObj (AList.update ''permissions'' (new_permissions_object sa ps) kvs)"
proof -
  obtain kvs where es: "es = JObj kvs"
    using assms merged_settings_not_JObj [of es ea P] by auto
  show ?thesis
    using assms unfolding es merged_settings_JObj
    by (auto split: json.splits sum.splits)
qed

subsection \<open>The file system and the writer\<close>

lemma node_at_update_same: "p \<noteq> [] \<Longrightarrow> node_at (AList.update p n fs) p = Some n"
  by (simp add: node_at_def update_conv')

lemma node_at_update_other: "q \<noteq> p \<Longrightarrow> node_at (AList.update p n fs) q = node_at fs q"
  by (simp add: node_at_def update_conv')

lemma update_settings_file_NoneD:
  assumes "update_settings_file loads dumps out P fs = (None, fs', log)"
  shows "\<exists>doc. new_settings loads fs out P = Inr doc \<and> can_write fs out \<and>
           fs' = AList.update out (File (dumps doc @ [CHR 0x0A])) fs"
  using assms
  by (auto simp: update_settings_file_def new_settings_def write_text_def bind_def
           split: prod.splits sum.splits if_splits)

lemma update_settings_file_writes:
  assumes "new_settings loads fs out P = Inr doc" and "can_write fs out"
  shows "\<exists>log. update_settings_file loads dumps out P fs =
           (None, AList.update out (File (dumps doc @ [CHR 0x0A])) fs, log)"
  using assms
  by (auto simp: update_settings_file_def new_settings_def write_text_def bind_def
           split: prod.splits sum.splits if_splits)

section \<open>The claims\<close>

text \<open>
  C10. The write step never drops a supplied permission: for every set of permission
  strings and every state of the output file, when \<open>update_settings_file\<close> writes, the
  \<^verbatim>\<open>permissions.allow\<close> list of the document it writes contains every supplied permission.
\<close>

theorem write_keeps_supplied_permissions:
  assumes "list_all is_str permissions"
    and "update_settings_file loads dumps output_path permissions fs = (None, fs', log)"
  shows "\<exists>doc. node_at fs' output_path = Some (File (dumps doc @ [CHR 0x0A])) \<and>
           set permissions \<subseteq> set (allow_of doc)"
proof -
  obtain doc where doc: "new_settings loads fs output_path permissions = Inr doc"
    and w: "can_write fs output_path"
    and fs': "fs' = AList.update output_path (File (dumps doc @ [CHR 0x0A])) fs"
    using update_settings_file_NoneD [OF assms(2)] by blast
  obtain es ea l where r: "read_existing loads fs output_path = (es, ea, l)"
    by (metis prod_cases3)
  with doc have m: "merged_settings es ea permissions = Inr doc"
    by (simp add: new_settings_def)
  then obtain kvs ps sa where sa: "py_sorted (set_union ea permissions) = Inr sa"
    and d: "doc = JObj (AList.update ''permissions'' (new_permissions_object sa ps) kvs)"
    using merged_settings_InrD by blast
  have "set permissions \<subseteq> set (set_union ea permissions)"
    using assms(1) by (rule set_union_keeps_strings)
  also have "\<dots> = set sa" using set_py_sorted [OF sa] by simp
  also have "\<dots> = set (allow_of doc)" by (simp add: d allow_of_new_settings)
  finally have "set permissions \<subseteq> set (allow_of doc)" .
  moreover have "node_at fs' output_path = Some (File (dumps doc @ [CHR 0x0A]))"
    using w by (simp add: fs' can_write_def node_at_update_same)
  ultimately show ?thesis by blast
qed

theorem write_keeps_supplied_permissions_witness:
  "list_all is_str [JStr ''Edit'', JStr ''Bash(ls)''] \<and>
   fst (update_settings_file json_loads json_dumps example_output
          [JStr ''Edit'', JStr ''Bash(ls)'']
          (with_output ''{\"permissions\": {\"allow\": [\"Bash(ls)\", \"Read\"]}}'')) = None \<and>
   (\<exists>doc. node_at (fst (snd (update_settings_file json_loads json_dumps example_output
                               [JStr ''Edit'', JStr ''Bash(ls)'']
                               (with_output ''{\"permissions\": {\"allow\": [\"Bash(ls)\", \"Read\"]}}''))))
             example_output = Some (File (json_dumps doc @ [CHR 0x0A])) \<and>
          set [JStr ''Edit'', JStr ''Bash(ls)''] \<subseteq> set (allow_of doc))"
proof -
  let ?P = "[JStr ''Edit'', JStr ''Bash(ls)'']"
  let ?r = "update_settings_file json_loads json_dumps example_output ?P
              (with_output ''{\"permissions\": {\"allow\": [\"Bash(ls)\", \"Read\"]}}'')"
  have p: "list_all is_str ?P" by simp
  have n: "fst ?r = None" by code_simp
  then have e: "?r = (None, fst (snd ?r), snd (snd ?r))" by (metis prod.collapse)
  show ?thesis
    using write_keeps_supplied_permissions [OF p e] p n by blast
qed

lemma matches_pattern_iff:
  "matches_pattern root_dir p \<longleftrightarrow>
     (\<exists>mid. p = root_dir @ mid @ [''.claude'', ''settings.local.json''])"
proof
  assume "matches_pattern root_dir p"
  then obtain rest mid where "p = root_dir @ rest" "drop (length root_dir) p = mid @ [''.claude'', ''settings.local.json'']"
    by (auto simp: matches_pattern_def prefix_def suffix_def)
  then show "\<exists>mid. p = root_dir @ mid @ [''.claude'', ''settings.local.json'']" by auto
next
  assume "\<exists>mid. p = root_dir @ mid @ [''.claude'', ''settings.local.json'']"
  then show "matches_pattern root_dir p"
    by (auto simp: matches_pattern_def suffix_def)
qed

text \<open>
  C9. The discoverer returns every path below the root that matches
  \<^verbatim>\<open>**/.claude/settings.local.json\<close>, and the empty list when there is none. As stated,
  sorted by path string, the claim fails: the list is sorted by \<^verbatim>\<open>Path\<close> comparison, that
  is by the lists of components, and \<^verbatim>\<open>/proj/a/...\<close> comes before \<^verbatim>\<open>/proj/a.b/...\<close>
  although the string \<^verbatim>\<open>/proj/a.b/...\<close> is the smaller one (\<^verbatim>\<open>.\<close> is below \<^verbatim>\<open>/\<close>).
\<close>

theorem find_settings_files_order_counterexample:
  "\<not> sorted (map path_string (find_settings_files example_inputs example_root))"
  by code_simp

text \<open>
  C9, amended. The discoverer returns exactly the paths of the file system below the root
  that end in \<^verbatim>\<open>.claude/settings.local.json\<close>, each once, sorted ascending by their lists
  of components, and the empty list when there is none.
\<close>

theorem find_settings_files_sorted_by_components:
  "set (find_settings_files fs root_dir) =
     {p \<in> fst ` set fs. \<exists>mid. p = root_dir @ mid @ [''.claude'', ''settings.local.json'']} \<and>
   sorted (find_settings_files fs root_dir) \<and>
   (distinct (map fst fs) \<longrightarrow> distinct (find_settings_files fs root_dir)) \<and>
   ((\<forall>p \<in> fst ` set fs. \<not> matches_pattern root_dir p) \<longrightarrow> find_settings_files fs root_dir = [])"
  by (auto simp: find_settings_files_def glob_settings_def matches_pattern_iff filter_empty_conv
           intro: distinct_filter)

theorem find_settings_files_sorted_by_components_witness:
  "distinct (map fst example_inputs) \<and>
   list_all (\<lambda>p. \<not> matches_pattern [''proj'', ''conf''] p) (map fst example_inputs) \<and>
   find_settings_files example_inputs [''proj'', ''conf''] = [] \<and>
   find_settings_files example_inputs example_root =
     [[''proj'', ''a'', ''.claude'', ''settings.local.json''],
      [''proj'', ''a.b'', ''.claude'', ''settings.local.json''],
      [''proj'', ''bad'', ''.claude'', ''settings.local.json'']] \<and>
   sorted (find_settings_files example_inputs example_root) \<and>
   distinct (find_settings_files example_inputs example_root)"
proof -
  have d: "distinct (map fst example_inputs)" by code_simp
  have n: "\<forall>p \<in> fst ` set example_inputs. \<not> matches_pattern [''proj'', ''conf''] p" by code_simp
  have e: "find_settings_files example_inputs example_root =
     [[''proj'', ''a'', ''.claude'', ''settings.local.json''],
      [''proj'', ''a.b'', ''.claude'', ''settings.local.json''],
      [''proj'', ''bad'', ''.claude'', ''settings.local.json'']]" by code_simp
  show ?thesis
    using find_settings_files_sorted_by_components [of example_inputs "[''proj'', ''conf'']"]
      find_settings_files_sorted_by_components [of example_inputs example_root] d n e
    by (simp add: list_all_iff)
qed

lemma merge_loop_nothing:
  "\<forall>f \<in> set files. fst (extract_allow_permissions loads fs f) = [] \<Longrightarrow>
   fst (merge_loop loads fs root_dir files acc) = acc"
  by (induction files arbitrary: acc) (simp_all add: case_prod_beta)

text \<open>
  C7. When the root is a directory and no settings file is discovered below it, or no
  discovered file yields a permission, \<open>main\<close> ends with status 0 after the message of
  lines 231 or 240, and the file system is as it was.
\<close>

theorem nothing_found_leaves_output:
  assumes "is_dir fs root_dir"
    and "\<forall>f \<in> set (find_settings_files fs root_dir).
           fst (extract_allow_permissions loads fs f) = []"
  shows "\<exists>log. main loads dumps root_dir output_path verbose fs = (0, fs, log) \<and>
           last log = (if find_settings_files fs root_dir = [] then NoFilesFound
                       else NoPermissionsFound)"
proof -
  have e: "path_exists fs root_dir" using assms(1) by (simp add: is_dir_def path_exists_def)
  have m: "fst (merge_permissions loads fs (find_settings_files fs root_dir) root_dir) = []"
    unfolding merge_permissions_def using assms(2) by (rule merge_loop_nothing)
  show ?thesis
    using e assms(1) m
    by (cases "merge_permissions loads fs (find_settings_files fs root_dir) root_dir")
       (simp add: main_def Let_def)
qed

theorem nothing_found_leaves_output_witness:
  "is_dir example_inputs [''proj'', ''bad''] \<and>
   list_all (\<lambda>f. fst (extract_allow_permissions json_loads example_inputs f) = [])
     (find_settings_files example_inputs [''proj'', ''bad'']) \<and>
   find_settings_files example_inputs [''proj'', ''bad''] \<noteq> [] \<and>
   (\<exists>log. main json_loads json_dumps [''proj'', ''bad''] example_output False example_inputs =
            (0, example_inputs, log) \<and> last log = NoPermissionsFound) \<and>
   is_dir example_inputs [''proj'', ''conf''] \<and>
   find_settings_files example_inputs [''proj'', ''conf''] = [] \<and>
   (\<exists>log. main json_loads json_dumps [''proj'', ''conf''] example_output False example_inputs =
            (0, example_inputs, log) \<and> last log = NoFilesFound)"
proof -
  have d1: "is_dir example_inputs [''proj'', ''bad'']" by code_simp
  have e1: "\<forall>f \<in> set (find_settings_files example_inputs [''proj'', ''bad'']).
      fst (extract_allow_permissions json_loads example_inputs f) = []" by code_simp
  have n1: "find_settings_files example_inputs [''proj'', ''bad''] \<noteq> []" by code_simp
  have d2: "is_dir example_inputs [''proj'', ''conf'']" by code_simp
  have n2: "find_settings_files example_inputs [''proj'', ''conf''] = []" by code_simp
  have e2: "\<forall>f \<in> set (find_settings_files example_inputs [''proj'', ''conf'']).
      fst (extract_allow_permissions json_loads example_inputs f) = []" by (simp add: n2)
  show ?thesis
    using nothing_found_leaves_output [OF d1 e1, of json_dumps example_output False]
      nothing_found_leaves_output [OF d2 e2, of json_dumps example_output False]
      d1 e1 n1 d2 n2
    by (simp add: list_all_iff)
qed

lemma is_str_hashable: "is_str x \<Longrightarrow> hashable x"
  by (cases x) auto

lemma py_set_strings:
  assumes "list_all is_str xs"
  shows "py_set (JArr xs) = Inr (foldl set_add [] xs)"
  using assms by (auto simp: list_all_iff is_str_hashable)

lemma list_all_foldl_set_add:
  "list_all is_str s \<Longrightarrow> list_all is_str t \<Longrightarrow> list_all is_str (foldl set_add s t)"
  using set_foldl_set_add [of t s] by (auto simp: list_all_iff)

text \<open>
  C8. For a file whose text parses to a settings document, the extractor returns the set
  of the strings in \<^verbatim>\<open>permissions.allow\<close> and prints nothing; the set is empty when the
  \<^verbatim>\<open>permissions\<close> key or the \<^verbatim>\<open>allow\<close> key is absent.
\<close>

theorem extract_from_valid_document:
  assumes "read_text fs file_path = Inr content"
    and "loads content = Inr d"
    and "settings_document d"
  shows "\<exists>s. extract_allow_permissions loads fs file_path = (s, []) \<and>
           list_all is_str s \<and> distinct s \<and> set s = set (allow_of d) \<and>
           ((map_of (fields_of d) ''permissions'' = None \<or>
             map_of (fields_of (permissions_of (fields_of d))) ''allow'' = None) \<longrightarrow> s = [])"
proof -
  obtain kvs where d: "d = JObj kvs"
    using assms(3) by (cases d) (auto simp: settings_document_def)
  show ?thesis
  proof (cases "map_of kvs ''permissions''")
    case None
    then show ?thesis
      using assms(1,2)
      by (simp add: extract_allow_permissions_def d allow_of_def fields_of_def)
  next
    case (Some p)
    then obtain ps where p: "p = JObj ps"
      using assms(3) by (cases p) (auto simp: settings_document_def d)
    show ?thesis
    proof (cases "map_of ps ''allow''")
      case None
      then show ?thesis
        using assms(1,2) Some p
        by (simp add: extract_allow_permissions_def d allow_of_def fields_of_def permissions_of_def)
    next
      case (Some a)
      then obtain xs where a: "a = JArr xs" and xs: "list_all is_str xs"
        using assms(3) \<open>map_of kvs ''permissions'' = Some p\<close> p
        by (cases a) (auto simp: settings_document_def d)
      have e: "extract_allow_permissions loads fs file_path = (foldl set_add [] xs, [])"
        using assms(1,2) Some p \<open>map_of kvs ''permissions'' = Some p\<close> a py_set_strings [OF xs]
        by (simp add: extract_allow_permissions_def d)
      have "allow_of d = xs"
        using Some p \<open>map_of kvs ''permissions'' = Some p\<close> a by (simp add: allow_of_def d)
      then show ?thesis
        using e xs Some p \<open>map_of kvs ''permissions'' = Some p\<close>
        by (simp add: set_foldl_set_add distinct_foldl_set_add list_all_foldl_set_add
              fields_of_def permissions_of_def d)
    qed
  qed
qed

theorem extract_from_valid_document_witness:
  "read_text example_inputs [''proj'', ''a.b'', ''.claude'', ''settings.local.json''] =
     Inr ''{\"permissions\": {\"allow\": [\"Write(*.md)\", \"Read(*.py)\"]}}'' \<and>
   json_loads ''{\"permissions\": {\"allow\": [\"Write(*.md)\", \"Read(*.py)\"]}}'' =
     Inr (JObj [(''permissions'',
                 JObj [(''allow'', JArr [JStr ''Write(*.md)'', JStr ''Read(*.py)''])])]) \<and>
   settings_document
     (JObj [(''permissions'',
             JObj [(''allow'', JArr [JStr ''Write(*.md)'', JStr ''Read(*.py)''])])]) \<and>
   (\<exists>s. extract_allow_permissions json_loads example_inputs
          [''proj'', ''a.b'', ''.claude'', ''settings.local.json''] = (s, []) \<and>
        set s = {JStr ''Write(*.md)'', JStr ''Read(*.py)''})"
proof -
  let ?c = "''{\"permissions\": {\"allow\": [\"Write(*.md)\", \"Read(*.py)\"]}}''"
  let ?d = "JObj [(''permissions'',
                   JObj [(''allow'', JArr [JStr ''Write(*.md)'', JStr ''Read(*.py)''])])]"
  have r: "read_text example_inputs [''proj'', ''a.b'', ''.claude'', ''settings.local.json''] =
     Inr ?c" by code_simp
  have l: "json_loads ?c = Inr ?d" by code_simp
  have s: "settings_document ?d" by code_simp
  have a: "allow_of ?d = [JStr ''Write(*.md)'', JStr ''Read(*.py)'']" by code_simp
  show ?thesis
    using extract_from_valid_document [where loads = json_loads, OF r l s] r l s a by auto
qed

lemma read_text_exists: "read_text fs p = Inr c \<Longrightarrow> path_exists fs p"
  by (auto simp: read_text_def path_exists_def split: option.splits node.splits)

lemma existing_allow_of_settings_document:
  assumes "settings_document d"
  shows "existing_allow_of d = Inr None \<and> allow_of d = [] \<or>
         existing_allow_of d = Inr (Some (foldl set_add [] (allow_of d))) \<and>
         list_all is_str (allow_of d)"
proof -
  obtain kvs where d: "d = JObj kvs"
    using assms by (cases d) (auto simp: settings_document_def)
  show ?thesis
  proof (cases "map_of kvs ''permissions''")
    case None
    then have "''permissions'' \<notin> fst ` set kvs" by (simp add: map_of_None_iff_keys)
    then show ?thesis using None by (simp add: existing_allow_of_def d allow_of_def)
  next
    case (Some p)
    then have k: "''permissions'' \<in> fst ` set kvs"
      by (metis map_of_None_iff_keys option.distinct(1))
    obtain ps where p: "p = JObj ps"
      using assms Some by (cases p) (auto simp: settings_document_def d)
    show ?thesis
    proof (cases "map_of ps ''allow''")
      case None
      then have "''allow'' \<notin> fst ` set ps" by (simp add: map_of_None_iff_keys)
      then show ?thesis
        using None Some k p by (simp add: existing_allow_of_def d allow_of_def)
    next
      case allow: (Some a)
      then have ka: "''allow'' \<in> fst ` set ps"
        by (metis map_of_None_iff_keys option.distinct(1))
      obtain xs where a: "a = JArr xs" and xs: "list_all is_str xs"
        using assms Some p allow by (cases a) (auto simp: settings_document_def d)
      have "allow_of d = xs" using Some p allow a by (simp add: allow_of_def d)
      then show ?thesis
        using Some k p allow ka a xs py_set_strings [OF xs]
        by (simp add: existing_allow_of_def d)
    qed
  qed
qed

lemma read_existing_no_document:
  assumes "existing_document loads fs out = None"
  shows "\<exists>l. read_existing loads fs out = (JObj [], [], l)"
  using assms
  by (auto simp: read_existing_def existing_document_def split: sum.splits prod.splits)


lemma read_existing_settings_document:
  assumes "existing_document loads fs out = Some d" and "settings_document d"
  shows "\<exists>l. read_existing loads fs out = (d, foldl set_add [] (allow_of d), l)"
proof -
  obtain c l1 where c: "read_text fs out = Inr c" and l: "load_existing loads out c = Inr (d, l1)"
    using assms(1) by (auto simp: existing_document_def split: sum.splits prod.splits)
  have "path_exists fs out" using c by (rule read_text_exists)
  then show ?thesis
    using c l existing_allow_of_settings_document [OF assms(2)]
    by (auto simp: read_existing_def)
qed

lemma list_all_set_union:
  "list_all is_str s \<Longrightarrow> list_all is_str t \<Longrightarrow> list_all is_str (set_union s t)"
  by (simp add: set_union_def list_all_foldl_set_add)

lemma settings_document_fields:
  assumes "settings_document d"
  shows "\<exists>kvs ps. d = JObj kvs \<and> permissions_of kvs = JObj ps"
  using assms
  by (cases d) (auto simp: settings_document_def permissions_of_def split: option.splits json.splits)

lemma settings_document_allow: "settings_document d \<Longrightarrow> list_all is_str (allow_of d)"
  using existing_allow_of_settings_document [of d] by auto

lemma merged_settings_strings:
  assumes "permissions_of kvs = JObj ps" and "list_all is_str ea" and "distinct ea"
    and "list_all is_str P"
  shows "merged_settings (JObj kvs) ea P =
           Inr (JObj (AList.update ''permissions''
                  (new_permissions_object
                     (map JStr (sorted_list_of_set (str_of ` (set ea \<union> set P)))) ps) kvs))"
proof -
  have "py_sorted (set_union ea P) =
          Inr (map JStr (sorted_list_of_set (str_of ` set (set_union ea P))))"
    using assms by (intro py_sorted_strings list_all_set_union distinct_set_union)
  then show ?thesis
    using assms(1,4) by (simp add: merged_settings_JObj set_set_union)
qed

lemma merge_loop_strings:
  assumes "\<forall>f \<in> set files. list_all is_str (fst (extract_allow_permissions loads fs f))"
    and "list_all is_str acc" and "distinct acc"
  shows "list_all is_str (fst (merge_loop loads fs root_dir files acc)) \<and>
         distinct (fst (merge_loop loads fs root_dir files acc)) \<and>
         set (fst (merge_loop loads fs root_dir files acc)) = set acc \<union> extracted loads fs files"
  using assms
proof (induction files arbitrary: acc)
  case Nil
  then show ?case by (simp add: extracted_def)
next
  case (Cons f files)
  let ?p = "fst (extract_allow_permissions loads fs f)"
  have p: "list_all is_str ?p" using Cons.prems(1) by simp
  have rest: "\<forall>f \<in> set files. list_all is_str (fst (extract_allow_permissions loads fs f))"
    using Cons.prems(1) by simp
  show ?case
  proof (cases "?p = []")
    case True
    then show ?thesis
      using Cons.IH [OF rest Cons.prems(2,3)]
      by (simp add: case_prod_beta extracted_def)
  next
    case False
    have a: "list_all is_str (set_union acc ?p)" "distinct (set_union acc ?p)"
      using p Cons.prems(2,3) by (simp_all add: list_all_set_union distinct_set_union)
    show ?thesis
      using Cons.IH [OF rest a] False p
      by (simp add: case_prod_beta extracted_def set_set_union Un_assoc)
  qed
qed

lemma merge_loop_log:
  "f \<in> set files \<Longrightarrow>
   set (snd (extract_allow_permissions loads fs f))
     \<subseteq> set (snd (merge_loop loads fs root_dir files acc))"
proof (induction files arbitrary: acc)
  case Nil
  then show ?case by simp
next
  case (Cons g files)
  show ?case
  proof (cases "f = g")
    case True
    then show ?thesis by (auto simp: case_prod_beta)
  next
    case False
    then have "f \<in> set files" using Cons.prems by simp
    from Cons.IH [OF this] show ?thesis by (auto simp: case_prod_beta)
  qed
qed

lemma merge_permissions_strings:
  assumes "\<forall>f \<in> set files. list_all is_str (fst (extract_allow_permissions loads fs f))"
  shows "list_all is_str (fst (merge_permissions loads fs files root_dir))"
    and "distinct (fst (merge_permissions loads fs files root_dir))"
    and "set (fst (merge_permissions loads fs files root_dir)) = extracted loads fs files"
  using merge_loop_strings [OF assms, of "[]" root_dir] by (simp_all add: merge_permissions_def)

lemma main_reaches_writer:
  assumes "is_dir fs root_dir"
    and "\<forall>f \<in> set (find_settings_files fs root_dir).
           list_all is_str (fst (extract_allow_permissions loads fs f))"
    and "extracted loads fs (find_settings_files fs root_dir) \<noteq> {}"
    and "update_settings_file loads dumps output_path
           (fst (merge_permissions loads fs (find_settings_files fs root_dir) root_dir)) fs =
         (None, fs', l)"
  shows "\<exists>log. main loads dumps root_dir output_path verbose fs = (0, fs', log) \<and>
           set (snd (merge_permissions loads fs (find_settings_files fs root_dir) root_dir))
             \<subseteq> set log"
proof -
  let ?files = "find_settings_files fs root_dir"
  let ?m = "merge_permissions loads fs ?files root_dir"
  have e: "path_exists fs root_dir" using assms(1) by (simp add: is_dir_def path_exists_def)
  have s: "list_all is_str (fst ?m)" "distinct (fst ?m)" "set (fst ?m) = extracted loads fs ?files"
    using merge_permissions_strings [OF assms(2)] by simp_all
  have ne: "fst ?m \<noteq> []" using s(3) assms(3) by auto
  have f: "?files \<noteq> []" using assms(3) by (auto simp: extracted_def)
  have v: "py_sorted (fst ?m) = Inr (map JStr (sorted_list_of_set (str_of ` set (fst ?m))))"
    using s(1,2) by (rule py_sorted_strings)
  obtain mp l1 where m: "?m = (mp, l1)" by (cases ?m)
  show ?thesis
    using e assms(1,4) ne f v m
    by (auto simp: main_def Let_def)
qed

lemma new_settings_settings_document:
  assumes "\<forall>d. existing_document loads fs out = Some d \<longrightarrow> settings_document d"
    and "list_all is_str P"
  shows "\<exists>doc xs. new_settings loads fs out P = Inr doc \<and> allow_of doc = map JStr xs \<and>
           sorted xs \<and> distinct xs \<and>
           set xs = (case existing_document loads fs out of
                       None \<Rightarrow> {} | Some d \<Rightarrow> str_of ` set (allow_of d)) \<union> str_of ` set P"
proof (cases "existing_document loads fs out")
  case None
  then obtain l where r: "read_existing loads fs out = (JObj [], [], l)"
    using read_existing_no_document by blast
  have p: "permissions_of [] = JObj []" by (simp add: permissions_of_def)
  let ?xs = "sorted_list_of_set (str_of ` set P)"
  let ?doc = "JObj (AList.update ''permissions'' (new_permissions_object (map JStr ?xs) []) [])"
  have "new_settings loads fs out P = Inr ?doc"
    using merged_settings_strings [OF p _ _ assms(2), of "[]"] r
    by (simp add: new_settings_def)
  moreover have "allow_of ?doc = map JStr ?xs" by (rule allow_of_new_settings)
  moreover have "sorted ?xs" "distinct ?xs" "set ?xs = {} \<union> str_of ` set P" by simp_all
  ultimately show ?thesis
    unfolding None option.case by blast
next
  case (Some d)
  then have sd: "settings_document d" using assms(1) by simp
  obtain l where r: "read_existing loads fs out = (d, foldl set_add [] (allow_of d), l)"
    using read_existing_settings_document [OF Some sd] by blast
  obtain kvs ps where d: "d = JObj kvs" and p: "permissions_of kvs = JObj ps"
    using settings_document_fields [OF sd] by blast
  have a: "list_all is_str (allow_of d)" using sd by (rule settings_document_allow)
  have ea: "list_all is_str (foldl set_add [] (allow_of d))"
    "distinct (foldl set_add [] (allow_of d))"
    "set (foldl set_add [] (allow_of d)) = set (allow_of d)"
    using a by (simp_all add: list_all_foldl_set_add distinct_foldl_set_add set_foldl_set_add)
  let ?xs = "sorted_list_of_set (str_of ` (set (allow_of d) \<union> set P))"
  let ?doc = "JObj (AList.update ''permissions'' (new_permissions_object (map JStr ?xs) ps) kvs)"
  have "new_settings loads fs out P = Inr ?doc"
    using merged_settings_strings [OF p ea(1,2) assms(2)] r ea(3)
    by (simp add: new_settings_def d)
  moreover have "allow_of ?doc = map JStr ?xs" by (rule allow_of_new_settings)
  moreover have "sorted ?xs" "distinct ?xs"
    "set ?xs = str_of ` set (allow_of d) \<union> str_of ` set P" by (simp_all add: image_Un)
  ultimately show ?thesis
    unfolding Some option.case by blast
qed

text \<open>
  C1. A run that reaches the writer (the root is a directory, the discovered files yield at
  least one permission, the output path can be written), on settings documents of the
  data model, ends with status 0 and writes a document whose \<^verbatim>\<open>permissions.allow\<close> is
  the list of the strings of (a) the \<^verbatim>\<open>allow\<close> list of the document parsed from the
  output file, none when the file is absent or does not parse, and (b) the sets
  extracted from all discovered files, each string once, in ascending order.
\<close>

theorem written_allow_is_sorted_union:
  assumes "is_dir fs root_dir" and "can_write fs output_path"
    and "\<forall>f \<in> set (find_settings_files fs root_dir).
           list_all is_str (fst (extract_allow_permissions loads fs f))"
    and "\<forall>d. existing_document loads fs output_path = Some d \<longrightarrow> settings_document d"
    and "extracted loads fs (find_settings_files fs root_dir) \<noteq> {}"
  shows "\<exists>doc log xs.
           main loads dumps root_dir output_path verbose fs =
             (0, AList.update output_path (File (dumps doc @ [CHR 0x0A])) fs, log) \<and>
           allow_of doc = map JStr xs \<and> sorted xs \<and> distinct xs \<and>
           set xs =
             (case existing_document loads fs output_path of
                None \<Rightarrow> {} | Some d \<Rightarrow> str_of ` set (allow_of d)) \<union>
             str_of ` extracted loads fs (find_settings_files fs root_dir)"
proof -
  let ?files = "find_settings_files fs root_dir"
  let ?m = "fst (merge_permissions loads fs ?files root_dir)"
  have s: "list_all is_str ?m" "set ?m = extracted loads fs ?files"
    using merge_permissions_strings [OF assms(3)] by simp_all
  obtain doc xs where doc: "new_settings loads fs output_path ?m = Inr doc"
    and xs: "allow_of doc = map JStr xs" "sorted xs" "distinct xs"
      "set xs = (case existing_document loads fs output_path of
                   None \<Rightarrow> {} | Some d \<Rightarrow> str_of ` set (allow_of d)) \<union> str_of ` set ?m"
    using new_settings_settings_document [OF assms(4) s(1)] by blast
  obtain l where u: "update_settings_file loads dumps output_path ?m fs =
      (None, AList.update output_path (File (dumps doc @ [CHR 0x0A])) fs, l)"
    using update_settings_file_writes [OF doc assms(2)] by blast
  obtain log where "main loads dumps root_dir output_path verbose fs =
      (0, AList.update output_path (File (dumps doc @ [CHR 0x0A])) fs, log)"
    using main_reaches_writer [OF assms(1,3,5) u] by blast
  then show ?thesis using xs s(2) by auto
qed

theorem written_allow_is_sorted_union_witness:
  "is_dir (with_output ''{\"model\": \"opus\", \"permissions\": {\"allow\": [\"Bash(ls)\",],},}'')
     example_root \<and>
   can_write (with_output ''{\"model\": \"opus\", \"permissions\": {\"allow\": [\"Bash(ls)\",],},}'')
     example_output \<and>
   existing_document json_loads
     (with_output ''{\"model\": \"opus\", \"permissions\": {\"allow\": [\"Bash(ls)\",],},}'')
     example_output =
     Some (JObj [(''model'', JStr ''opus''),
                 (''permissions'', JObj [(''allow'', JArr [JStr ''Bash(ls)''])])]) \<and>
   settings_document
     (JObj [(''model'', JStr ''opus''),
            (''permissions'', JObj [(''allow'', JArr [JStr ''Bash(ls)''])])]) \<and>
   (\<exists>doc log xs.
      main json_loads json_dumps example_root example_output False
        (with_output ''{\"model\": \"opus\", \"permissions\": {\"allow\": [\"Bash(ls)\",],},}'') =
        (0, AList.update example_output (File (json_dumps doc @ [CHR 0x0A]))
              (with_output
                 ''{\"model\": \"opus\", \"permissions\": {\"allow\": [\"Bash(ls)\",],},}''),
         log) \<and>
      allow_of doc = map JStr xs \<and> sorted xs \<and> distinct xs \<and>
      set xs = {''Bash(ls)'', ''Read(*.py)'', ''Write(*.md)''})"
proof -
  let ?fs = "with_output ''{\"model\": \"opus\", \"permissions\": {\"allow\": [\"Bash(ls)\",],},}''"
  let ?d = "JObj [(''model'', JStr ''opus''),
                  (''permissions'', JObj [(''allow'', JArr [JStr ''Bash(ls)''])])]"
  have r: "is_dir ?fs example_root" by code_simp
  have w: "can_write ?fs example_output" by code_simp
  have "list_all (\<lambda>f. list_all is_str (fst (extract_allow_permissions json_loads ?fs f)))
          (find_settings_files ?fs example_root)" by code_simp
  then have t: "\<forall>f \<in> set (find_settings_files ?fs example_root).
                  list_all is_str (fst (extract_allow_permissions json_loads ?fs f))"
    by (simp add: list_all_iff)
  have e: "existing_document json_loads ?fs example_output = Some ?d" by code_simp
  have sd: "settings_document ?d" by code_simp
  have td: "\<forall>d. existing_document json_loads ?fs example_output = Some d \<longrightarrow> settings_document d"
    using e sd by simp
  have x: "str_of ` extracted json_loads ?fs (find_settings_files ?fs example_root) =
             {''Read(*.py)'', ''Write(*.md)''}" by code_simp
  then have ne: "extracted json_loads ?fs (find_settings_files ?fs example_root) \<noteq> {}" by auto
  have a: "str_of ` set (allow_of ?d) = {''Bash(ls)''}" by code_simp
  obtain doc log xs where m: "main json_loads json_dumps example_root example_output False ?fs =
        (0, AList.update example_output (File (json_dumps doc @ [CHR 0x0A])) ?fs, log)"
    and p: "allow_of doc = map JStr xs" "sorted xs" "distinct xs"
    and u: "set xs =
             (case existing_document json_loads ?fs example_output of
                None \<Rightarrow> {} | Some d \<Rightarrow> str_of ` set (allow_of d)) \<union>
             str_of ` extracted json_loads ?fs (find_settings_files ?fs example_root)"
    using written_allow_is_sorted_union [OF r w t td ne, of json_dumps False] by blast
  have "set xs = {''Bash(ls)'', ''Read(*.py)'', ''Write(*.md)''}"
    unfolding u e option.case a x by (simp only: Un_insert_left Un_empty_left)
  with m p have "\<exists>doc log xs.
      main json_loads json_dumps example_root example_output False ?fs =
        (0, AList.update example_output (File (json_dumps doc @ [CHR 0x0A])) ?fs, log) \<and>
      allow_of doc = map JStr xs \<and> sorted xs \<and> distinct xs \<and>
      set xs = {''Bash(ls)'', ''Read(*.py)'', ''Write(*.md)''}"
    by (intro exI [of _ doc] exI [of _ log] exI [of _ xs] conjI)
  with r w e sd show ?thesis by (intro conjI)
qed

lemma extract_parse_failure:
  "read_text fs file_path = Inr content \<Longrightarrow> loads content = Inl e \<Longrightarrow>
   extract_allow_permissions loads fs file_path = ([], [ErrorParsingJSON file_path e])"
  by (simp add: extract_allow_permissions_def)

lemma extracted_removeAll:
  "fst (extract_allow_permissions loads fs p) = [] \<Longrightarrow>
   extracted loads fs (removeAll p files) = extracted loads fs files"
  by (auto simp: extracted_def)

lemma main_nothing_extracted:
  assumes "is_dir fs root_dir"
    and "fst (merge_permissions loads fs (find_settings_files fs root_dir) root_dir) = []"
    and "find_settings_files fs root_dir \<noteq> []"
  shows "main loads dumps root_dir output_path verbose fs =
           (0, fs, [Searching root_dir, FoundFiles (length (find_settings_files fs root_dir))] @
                   snd (merge_permissions loads fs (find_settings_files fs root_dir) root_dir) @
                   [NoPermissionsFound])"
proof -
  have e: "path_exists fs root_dir" using assms(1) by (simp add: is_dir_def path_exists_def)
  show ?thesis
    using e assms
    by (cases "merge_permissions loads fs (find_settings_files fs root_dir) root_dir")
       (simp add: main_def Let_def)
qed

text \<open>
  C5. For a discovered file whose text does not parse, the extractor prints the diagnostic
  of line 59, with the file and the parse error, and returns the empty set; the merged set
  is what the other files yield; and the run goes on to status 0, the diagnostic among its
  messages, when the output side is in order (the output path can be written and the
  existing output, if it parses, is a settings document).
\<close>

theorem malformed_input_is_skipped:
  assumes "is_dir fs root_dir" and "can_write fs output_path"
    and "\<forall>f \<in> set (find_settings_files fs root_dir).
           list_all is_str (fst (extract_allow_permissions loads fs f))"
    and "\<forall>d. existing_document loads fs output_path = Some d \<longrightarrow> settings_document d"
    and "file_path \<in> set (find_settings_files fs root_dir)"
    and "read_text fs file_path = Inr content" and "loads content = Inl e"
  shows "extract_allow_permissions loads fs file_path = ([], [ErrorParsingJSON file_path e]) \<and>
         set (fst (merge_permissions loads fs (find_settings_files fs root_dir) root_dir)) =
           extracted loads fs (removeAll file_path (find_settings_files fs root_dir)) \<and>
         (\<exists>fs' log. main loads dumps root_dir output_path verbose fs = (0, fs', log) \<and>
                    ErrorParsingJSON file_path e \<in> set log)"
proof -
  let ?files = "find_settings_files fs root_dir"
  let ?m = "merge_permissions loads fs ?files root_dir"
  have x: "extract_allow_permissions loads fs file_path = ([], [ErrorParsingJSON file_path e])"
    using assms(6,7) by (rule extract_parse_failure)
  have s: "list_all is_str (fst ?m)" "set (fst ?m) = extracted loads fs ?files"
    using merge_permissions_strings [OF assms(3)] by simp_all
  have r: "set (fst ?m) = extracted loads fs (removeAll file_path ?files)"
    using s(2) x by (simp add: extracted_removeAll)
  have "set (snd (extract_allow_permissions loads fs file_path)) \<subseteq> set (snd ?m)"
    unfolding merge_permissions_def using assms(5) by (rule merge_loop_log)
  then have l: "ErrorParsingJSON file_path e \<in> set (snd ?m)" using x by simp
  have "\<exists>fs' log. main loads dumps root_dir output_path verbose fs = (0, fs', log) \<and>
                   ErrorParsingJSON file_path e \<in> set log"
  proof (cases "extracted loads fs ?files = {}")
    case True
    then have "fst ?m = []" using s(2) by simp
    moreover have "?files \<noteq> []" using assms(5) by auto
    ultimately show ?thesis
      using main_nothing_extracted [OF assms(1), of loads dumps output_path verbose] l by simp
  next
    case False
    obtain doc where doc: "new_settings loads fs output_path (fst ?m) = Inr doc"
      using new_settings_settings_document [OF assms(4) s(1)] by blast
    obtain l1 where u: "update_settings_file loads dumps output_path (fst ?m) fs =
        (None, AList.update output_path (File (dumps doc @ [CHR 0x0A])) fs, l1)"
      using update_settings_file_writes [OF doc assms(2)] by blast
    show ?thesis
      using main_reaches_writer [OF assms(1,3) False u, of verbose] l by blast
  qed
  with x r show ?thesis by blast
qed

theorem malformed_input_is_skipped_witness:
  "is_dir example_inputs example_root \<and> can_write example_inputs example_output \<and>
   existing_document json_loads example_inputs example_output = None \<and>
   [''proj'', ''bad'', ''.claude'', ''settings.local.json'']
     \<in> set (find_settings_files example_inputs example_root) \<and>
   read_text example_inputs [''proj'', ''bad'', ''.claude'', ''settings.local.json''] =
     Inr ''{\"permissions\": {\"allow\": [\"Edit\"'' \<and>
   json_loads ''{\"permissions\": {\"allow\": [\"Edit\"'' = Inl ''Expecting value'' \<and>
   extract_allow_permissions json_loads example_inputs
     [''proj'', ''bad'', ''.claude'', ''settings.local.json''] =
     ([], [ErrorParsingJSON [''proj'', ''bad'', ''.claude'', ''settings.local.json'']
             ''Expecting value'']) \<and>
   set (fst (merge_permissions json_loads example_inputs
               (find_settings_files example_inputs example_root) example_root)) =
     {JStr ''Read(*.py)'', JStr ''Write(*.md)''} \<and>
   (\<exists>fs' log. main json_loads json_dumps example_root example_output False example_inputs =
                (0, fs', log) \<and>
              ErrorParsingJSON [''proj'', ''bad'', ''.claude'', ''settings.local.json'']
                ''Expecting value'' \<in> set log)"
proof -
  let ?p = "[''proj'', ''bad'', ''.claude'', ''settings.local.json'']"
  have r: "is_dir example_inputs example_root" by code_simp
  have w: "can_write example_inputs example_output" by code_simp
  have "list_all (\<lambda>f. list_all is_str (fst (extract_allow_permissions json_loads example_inputs f)))
          (find_settings_files example_inputs example_root)" by code_simp
  then have t: "\<forall>f \<in> set (find_settings_files example_inputs example_root).
                  list_all is_str (fst (extract_allow_permissions json_loads example_inputs f))"
    by (simp add: list_all_iff)
  have e: "existing_document json_loads example_inputs example_output = None" by code_simp
  then have td: "\<forall>d. existing_document json_loads example_inputs example_output = Some d \<longrightarrow>
                   settings_document d" by simp
  have i: "?p \<in> set (find_settings_files example_inputs example_root)" by code_simp
  have c: "read_text example_inputs ?p = Inr ''{\"permissions\": {\"allow\": [\"Edit\"''"
    by code_simp
  have l: "json_loads ''{\"permissions\": {\"allow\": [\"Edit\"'' = Inl ''Expecting value''"
    by code_simp
  have x: "extracted json_loads example_inputs
             (removeAll ?p (find_settings_files example_inputs example_root)) =
           {JStr ''Read(*.py)'', JStr ''Write(*.md)''}" by code_simp
  note th = malformed_input_is_skipped [where loads = json_loads and dumps = json_dumps
      and verbose = False, OF r w t td i c l]
  have a1: "extract_allow_permissions json_loads example_inputs ?p =
     ([], [ErrorParsingJSON ?p ''Expecting value''])"
    by (rule th [THEN conjunct1])
  have a2: "set (fst (merge_permissions json_loads example_inputs
               (find_settings_files example_inputs example_root) example_root)) =
     {JStr ''Read(*.py)'', JStr ''Write(*.md)''}"
    using th [THEN conjunct2, THEN conjunct1] unfolding x .
  have a3: "\<exists>fs' log. main json_loads json_dumps example_root example_output False example_inputs =
                (0, fs', log) \<and> ErrorParsingJSON ?p ''Expecting value'' \<in> set log"
    by (rule th [THEN conjunct2, THEN conjunct2])
  from r w e i c l a1 a2 a3 show ?thesis by (intro conjI)
qed


lemma keys_update: "fst ` set (AList.update k v al) = insert k (fst ` set al)"
  using dom_update [of k v al] by (simp add: dom_map_of_conv_image_fst)

lemma permissions_of_update: "permissions_of (AList.update ''permissions'' p kvs) = p"
  by (simp add: permissions_of_def update_conv')


lemma fresh_document:
  "JObj (AList.update ''permissions'' (new_permissions_object sa []) []) =
     JObj [(''permissions'', JObj [(''allow'', JArr sa), (''deny'', JArr []), (''ask'', JArr [])])]"
  by (simp add: new_permissions_object_def add_default_def)



lemma update_settings_file_log:
  assumes "read_existing loads fs out = (es, ea, l)"
    and "merged_settings es ea P = Inr doc" and "can_write fs out"
  shows "update_settings_file loads dumps out P fs =
           (None, AList.update out (File (dumps doc @ [CHR 0x0A])) fs,
            l @ [if set_diff P ea \<noteq> [] then AddedNew (length (set_diff P ea))
                 else NoNewPermissions,
                 SuccessfullyUpdated out, TotalUnique (length (set_union ea P))])"
  using assms by (simp add: update_settings_file_def write_text_def)




subsection \<open>A second run\<close>

lemma keys_add_default: "fst ` set (add_default k ps) = insert k (fst ` set ps)"
  by (auto simp: add_default_def keys_update)

lemma new_permissions_object_again:
  assumes "new_permissions_object sa ps = JObj ps'"
  shows "new_permissions_object sa ps' = JObj ps'"
proof -
  have ps': "ps' = add_default ''ask'' (add_default ''deny'' (AList.update ''allow'' (JArr sa) ps))"
    using assms by (simp add: new_permissions_object_def)
  have a: "map_of ps' ''allow'' = Some (JArr sa)"
    by (simp add: ps' map_of_add_default update_conv')
  have k: "''deny'' \<in> fst ` set ps'" "''ask'' \<in> fst ` set ps'"
    by (simp_all add: ps' keys_add_default)
  have "AList.update ''allow'' (JArr sa) ps' = ps'" using a by (rule update_triv)
  then show ?thesis
    using k by (simp add: new_permissions_object_def add_default_def)
qed

lemma settings_document_written:
  "settings_document
     (JObj (AList.update ''permissions'' (new_permissions_object (map JStr xs) ps) kvs))"
  by (simp add: settings_document_def new_permissions_object_def update_conv'
        map_of_add_default list_all_iff)

lemma set_union_subset:
  "list_all is_str t \<Longrightarrow> set t \<subseteq> set s \<Longrightarrow> set_union s t = s"
  unfolding set_union_def
  by (induction t) (auto simp: set_add_def list_ex_py_eq_str)

lemma set_diff_subset:
  "list_all is_str s \<Longrightarrow> set s \<subseteq> set t \<Longrightarrow> set_diff s t = []"
  by (auto simp: set_diff_def filter_empty_conv list_all_iff list_ex_py_eq_str)

lemma can_write_after_write:
  assumes "can_write fs out"
  shows "can_write (AList.update out (File text) fs) out"
proof -
  have "butlast out \<noteq> out" using assms by (metis can_write_def length_butlast
        diff_Suc_less length_greater_0_conv less_irrefl_nat One_nat_def)
  then show ?thesis
    using assms by (simp add: can_write_def is_dir_def node_at_update_same node_at_update_other)
qed

lemma read_text_after_write:
  "out \<noteq> [] \<Longrightarrow> read_text (AList.update out (File text) fs) out = Inr text"
  by (simp add: read_text_def node_at_update_same)

lemma read_text_elsewhere:
  "p \<noteq> out \<Longrightarrow> read_text (AList.update out n fs) p = read_text fs p"
  by (simp add: read_text_def node_at_update_other)

lemma update_second_run:
  assumes "new_settings loads fs out P = Inr doc"
    and "loads (dumps doc @ [CHR 0x0A]) = Inr doc"
    and "can_write fs out" and "list_all is_str P"
    and "\<forall>d. existing_document loads fs out = Some d \<longrightarrow> settings_document d"
    and "fs1 = AList.update out (File (dumps doc @ [CHR 0x0A])) fs"
  shows "\<exists>l n. update_settings_file loads dumps out P fs1 =
                 (None, fs1, l @ [NoNewPermissions, SuccessfullyUpdated out, TotalUnique n]) \<and>
               set_diff P (fst (snd (read_existing loads fs1 out))) = []"
proof -
  obtain es ea l0 where r0: "read_existing loads fs out = (es, ea, l0)" by (metis prod_cases3)
  with assms(1) have "merged_settings es ea P = Inr doc" by (simp add: new_settings_def)
  then obtain kvs ps sa
    where d: "doc = JObj (AList.update ''permissions'' (new_permissions_object sa ps) kvs)"
    using merged_settings_InrD by blast
  obtain doc' xs where "new_settings loads fs out P = Inr doc'"
    and "allow_of doc' = map JStr xs" and xs: "sorted xs" "distinct xs"
    and "set xs = (case existing_document loads fs out of
                     None \<Rightarrow> {} | Some d \<Rightarrow> str_of ` set (allow_of d)) \<union> str_of ` set P"
    using new_settings_settings_document [OF assms(5,4)] by blast
  then have al: "allow_of doc = map JStr xs" and px: "str_of ` set P \<subseteq> set xs"
    using assms(1) by auto
  have sa: "sa = map JStr xs" using al by (simp add: d allow_of_new_settings)
  have sd: "settings_document doc" unfolding d sa by (rule settings_document_written)
  have out: "out \<noteq> []" using assms(3) by (simp add: can_write_def)
  have rt: "read_text fs1 out = Inr (dumps doc @ [CHR 0x0A])"
    unfolding assms(6) using out by (rule read_text_after_write)
  have ed: "existing_document loads fs1 out = Some doc"
    using rt assms(2) by (simp add: existing_document_def load_existing_def)
  let ?ea = "foldl set_add [] (map JStr xs)"
  obtain l where r: "read_existing loads fs1 out = (doc, ?ea, l)"
    using read_existing_settings_document [OF ed sd] al by auto
  have str: "list_all is_str (map JStr xs)" by (simp add: list_all_iff)
  have ea: "list_all is_str ?ea" "distinct ?ea" "set ?ea = JStr ` set xs"
    using str by (simp_all add: list_all_foldl_set_add distinct_foldl_set_add set_foldl_set_add)
  have sub: "set P \<subseteq> set ?ea"
  proof
    fix x assume x: "x \<in> set P"
    then have "is_str x" using assms(4) by (simp add: list_all_iff)
    then have "x = JStr (str_of x)" by (simp add: JStr_str_of)
    moreover have "str_of x \<in> set xs" using x px by auto
    ultimately show "x \<in> set ?ea" unfolding ea(3) by (metis imageI)
  qed
  have un: "set_union ?ea P = ?ea" using assms(4) sub by (rule set_union_subset)
  have df: "set_diff P ?ea = []" using assms(4) sub by (rule set_diff_subset)
  have "sorted_list_of_set (set xs) = xs"
    using xs by (simp add: sorted_list_of_set.idem_if_sorted_distinct)
  then have "sorted_list_of_set (str_of ` set ?ea) = xs"
    unfolding ea(3) by (simp add: image_image)
  then have srt: "py_sorted ?ea = Inr sa"
    using py_sorted_strings [OF ea(1,2)] by (simp add: sa)
  obtain ps' where ps': "new_permissions_object sa ps = JObj ps'"
    by (simp add: new_permissions_object_def)
  have again: "new_permissions_object sa ps' = JObj ps'"
    using ps' by (rule new_permissions_object_again)
  have d': "doc = JObj (AList.update ''permissions'' (JObj ps') kvs)" by (simp only: d ps')
  have "merged_settings (JObj (AList.update ''permissions'' (JObj ps') kvs)) ?ea P =
          Inr (JObj (AList.update ''permissions'' (JObj ps') kvs))"
    by (simp add: merged_settings_JObj permissions_of_update un srt again)
  then have m: "merged_settings doc ?ea P = Inr doc" by (simp only: d')
  have w1: "can_write fs1 out" unfolding assms(6) using assms(3) by (rule can_write_after_write)
  have same: "AList.update out (File (dumps doc @ [CHR 0x0A])) fs1 = fs1"
    by (simp add: assms(6))
  have "update_settings_file loads dumps out P fs1 =
          (None, fs1, l @ [NoNewPermissions, SuccessfullyUpdated out,
                           TotalUnique (length (set_union ?ea P))])"
    using update_settings_file_log [OF r m w1, of dumps] same df by simp
  moreover have "set_diff P (fst (snd (read_existing loads fs1 out))) = []"
    using r df by simp
  ultimately show ?thesis by blast
qed

lemma glob_settings_after_write:
  assumes "\<not> matches_pattern root_dir out"
  shows "glob_settings (AList.update out n fs) root_dir = glob_settings fs root_dir"
  using assms by (simp add: glob_settings_def update_keys)

lemma extract_elsewhere:
  "f \<noteq> out \<Longrightarrow>
   extract_allow_permissions loads (AList.update out n fs) f =
     extract_allow_permissions loads fs f"
  by (simp add: extract_allow_permissions_def read_text_elsewhere)

lemma merge_loop_cong:
  "\<forall>f \<in> set files. extract_allow_permissions loads fs' f = extract_allow_permissions loads fs f \<Longrightarrow>
   merge_loop loads fs' root_dir files acc = merge_loop loads fs root_dir files acc"
  by (induction files arbitrary: acc) (simp_all add: case_prod_beta)

lemma inputs_after_write:
  assumes "\<not> matches_pattern root_dir out"
  shows "find_settings_files (AList.update out n fs) root_dir = find_settings_files fs root_dir"
    and "\<forall>f \<in> set (find_settings_files fs root_dir).
           extract_allow_permissions loads (AList.update out n fs) f =
             extract_allow_permissions loads fs f"
    and "merge_permissions loads (AList.update out n fs)
           (find_settings_files (AList.update out n fs) root_dir) root_dir =
         merge_permissions loads fs (find_settings_files fs root_dir) root_dir"
proof -
  show f: "find_settings_files (AList.update out n fs) root_dir = find_settings_files fs root_dir"
    using assms by (simp add: find_settings_files_def glob_settings_after_write)
  show e: "\<forall>f \<in> set (find_settings_files fs root_dir).
           extract_allow_permissions loads (AList.update out n fs) f =
             extract_allow_permissions loads fs f"
  proof
    fix g assume "g \<in> set (find_settings_files fs root_dir)"
    then have "matches_pattern root_dir g"
      by (simp add: find_settings_files_def glob_settings_def)
    then have "g \<noteq> out" using assms by auto
    then show "extract_allow_permissions loads (AList.update out n fs) g =
                 extract_allow_permissions loads fs g" by (rule extract_elsewhere)
  qed
  show "merge_permissions loads (AList.update out n fs)
           (find_settings_files (AList.update out n fs) root_dir) root_dir =
         merge_permissions loads fs (find_settings_files fs root_dir) root_dir"
    unfolding f merge_permissions_def using e by (rule merge_loop_cong)
qed

lemma is_dir_after_write:
  assumes "is_dir fs root_dir" and "can_write fs out"
  shows "is_dir (AList.update out (File text) fs) root_dir"
proof -
  have "root_dir \<noteq> out" using assms by (auto simp: can_write_def)
  then show ?thesis using assms(1) by (simp add: is_dir_def node_at_update_other)
qed

lemma main_writer_log:
  assumes "is_dir fs root_dir"
    and "\<forall>f \<in> set (find_settings_files fs root_dir).
           list_all is_str (fst (extract_allow_permissions loads fs f))"
    and "extracted loads fs (find_settings_files fs root_dir) \<noteq> {}"
    and "update_settings_file loads dumps output_path
           (fst (merge_permissions loads fs (find_settings_files fs root_dir) root_dir)) fs =
         (None, fs', l)"
  shows "\<exists>pre s. main loads dumps root_dir output_path verbose fs = (0, fs', pre @ l @ [s])"
proof -
  let ?files = "find_settings_files fs root_dir"
  let ?m = "merge_permissions loads fs ?files root_dir"
  have e: "path_exists fs root_dir" using assms(1) by (simp add: is_dir_def path_exists_def)
  have s: "list_all is_str (fst ?m)" "distinct (fst ?m)" "set (fst ?m) = extracted loads fs ?files"
    using merge_permissions_strings [OF assms(2)] by simp_all
  have ne: "fst ?m \<noteq> []" using s(3) assms(3) by auto
  have f: "?files \<noteq> []" using assms(3) by (auto simp: extracted_def)
  have v: "py_sorted (fst ?m) = Inr (map JStr (sorted_list_of_set (str_of ` set (fst ?m))))"
    using s(1,2) by (rule py_sorted_strings)
  obtain mp l1 where m: "?m = (mp, l1)" by (cases ?m)
  have "main loads dumps root_dir output_path verbose fs =
          (0, fs', ([Searching root_dir, FoundFiles (length ?files)] @ l1 @
                    [TotalFound (length mp)] @
                    (if verbose
                     then [MergedList (map JStr (sorted_list_of_set (str_of ` set mp)))]
                     else [])) @ l @ [Summary (length ?files) (length mp) output_path])"
    using e assms(1,4) ne f v m
    by (simp add: main_def Let_def)
  then show ?thesis by blast
qed

text \<open>
  C3. Idempotence. Take a run that reaches the writer, with an output path that is not
  itself one of the settings files below the root, and a parser that reads the written
  text back as the document written. The run ends with status 0; a second run on the file
  system it leaves ends with status 0 and leaves the file system, and so the output file
  and its \<^verbatim>\<open>permissions.allow\<close>, as it is, prints the message of line 175, and
  \<open>permissions - existing_allow\<close> is empty in it.
\<close>

theorem second_run_adds_nothing:
  assumes "is_dir fs root_dir" and "can_write fs output_path"
    and "\<not> matches_pattern root_dir output_path"
    and "\<forall>f \<in> set (find_settings_files fs root_dir).
           list_all is_str (fst (extract_allow_permissions loads fs f))"
    and "\<forall>d. existing_document loads fs output_path = Some d \<longrightarrow> settings_document d"
    and "extracted loads fs (find_settings_files fs root_dir) \<noteq> {}"
    and "new_settings loads fs output_path
           (fst (merge_permissions loads fs (find_settings_files fs root_dir) root_dir)) =
         Inr doc"
    and "loads (dumps doc @ [CHR 0x0A]) = Inr doc"
    and "fs1 = AList.update output_path (File (dumps doc @ [CHR 0x0A])) fs"
  shows "\<exists>log1 pre n s.
           main loads dumps root_dir output_path verbose fs = (0, fs1, log1) \<and>
           node_at fs1 output_path = Some (File (dumps doc @ [CHR 0x0A])) \<and>
           main loads dumps root_dir output_path verbose fs1 =
             (0, fs1,
              pre @ [NoNewPermissions, SuccessfullyUpdated output_path, TotalUnique n, s]) \<and>
           set_diff
             (fst (merge_permissions loads fs1 (find_settings_files fs1 root_dir) root_dir))
             (fst (snd (read_existing loads fs1 output_path))) = []"
proof -
  let ?files = "find_settings_files fs root_dir"
  let ?P = "fst (merge_permissions loads fs ?files root_dir)"
  let ?text = "dumps doc @ [CHR 0x0A]"
  have P: "list_all is_str ?P" using merge_permissions_strings(1) [OF assms(4)] .
  obtain l where "update_settings_file loads dumps output_path ?P fs = (None, fs1, l)"
    using update_settings_file_writes [OF assms(7,2)] assms(9) by blast
  then obtain log1 where run1: "main loads dumps root_dir output_path verbose fs = (0, fs1, log1)"
    using main_reaches_writer [OF assms(1,4,6)] by blast
  have out: "output_path \<noteq> []" using assms(2) by (simp add: can_write_def)
  have nd: "node_at fs1 output_path = Some (File ?text)"
    unfolding assms(9) using out by (rule node_at_update_same)
  have f1: "find_settings_files fs1 root_dir = ?files"
    unfolding assms(9) using assms(3) by (rule inputs_after_write(1))
  have e1: "\<forall>f \<in> set ?files.
              extract_allow_permissions loads fs1 f = extract_allow_permissions loads fs f"
    unfolding assms(9) using assms(3) by (rule inputs_after_write(2))
  have m1: "merge_permissions loads fs1 (find_settings_files fs1 root_dir) root_dir =
              merge_permissions loads fs ?files root_dir"
    unfolding assms(9) using assms(3) by (rule inputs_after_write(3))
  have d1: "is_dir fs1 root_dir" unfolding assms(9) using assms(1,2) by (rule is_dir_after_write)
  have t1: "\<forall>f \<in> set (find_settings_files fs1 root_dir).
              list_all is_str (fst (extract_allow_permissions loads fs1 f))"
    using assms(4) f1 e1 by simp
  have x1: "extracted loads fs1 (find_settings_files fs1 root_dir) \<noteq> {}"
    using assms(6) f1 e1 by (simp add: extracted_def)
  obtain l2 n where u2: "update_settings_file loads dumps output_path ?P fs1 =
      (None, fs1, l2 @ [NoNewPermissions, SuccessfullyUpdated output_path, TotalUnique n])"
    and df: "set_diff ?P (fst (snd (read_existing loads fs1 output_path))) = []"
    using update_second_run [where dumps = dumps, OF assms(7,8,2) P assms(5,9)] by blast
  have u2': "update_settings_file loads dumps output_path
      (fst (merge_permissions loads fs1 (find_settings_files fs1 root_dir) root_dir)) fs1 =
      (None, fs1, l2 @ [NoNewPermissions, SuccessfullyUpdated output_path, TotalUnique n])"
    using u2 by (simp only: m1)
  obtain pre s where "main loads dumps root_dir output_path verbose fs1 =
      (0, fs1, pre @ (l2 @ [NoNewPermissions, SuccessfullyUpdated output_path, TotalUnique n])
                 @ [s])"
    using main_writer_log [OF d1 t1 x1 u2'] by blast
  then have run2: "main loads dumps root_dir output_path verbose fs1 =
      (0, fs1, (pre @ l2) @
               [NoNewPermissions, SuccessfullyUpdated output_path, TotalUnique n, s])"
    by simp
  have "set_diff
      (fst (merge_permissions loads fs1 (find_settings_files fs1 root_dir) root_dir))
      (fst (snd (read_existing loads fs1 output_path))) = []"
    using df by (simp only: m1)
  with run1 nd run2 show ?thesis by blast
qed

theorem second_run_adds_nothing_witness:
  "is_dir (with_output ''{\"model\": \"opus\", \"permissions\": {\"allow\": [\"Bash(ls)\",],},}'')
     example_root \<and>
   can_write (with_output ''{\"model\": \"opus\", \"permissions\": {\"allow\": [\"Bash(ls)\",],},}'')
     example_output \<and>
   \<not> matches_pattern example_root example_output \<and>
   existing_document json_loads
     (with_output ''{\"model\": \"opus\", \"permissions\": {\"allow\": [\"Bash(ls)\",],},}'')
     example_output =
     Some (JObj [(''model'', JStr ''opus''),
                 (''permissions'', JObj [(''allow'', JArr [JStr ''Bash(ls)''])])]) \<and>
   settings_document
     (JObj [(''model'', JStr ''opus''),
            (''permissions'', JObj [(''allow'', JArr [JStr ''Bash(ls)''])])]) \<and>
   json_loads
     (json_dumps
        (JObj [(''model'', JStr ''opus''),
               (''permissions'',
                JObj [(''allow'',
                       JArr [JStr ''Bash(ls)'', JStr ''Read(*.py)'', JStr ''Write(*.md)'']),
                      (''deny'', JArr []), (''ask'', JArr [])])]) @ [CHR 0x0A]) =
     Inr (JObj [(''model'', JStr ''opus''),
                (''permissions'',
                 JObj [(''allow'',
                        JArr [JStr ''Bash(ls)'', JStr ''Read(*.py)'', JStr ''Write(*.md)'']),
                       (''deny'', JArr []), (''ask'', JArr [])])]) \<and>
   (\<exists>log1 pre n s.
      main json_loads json_dumps example_root example_output False
        (with_output ''{\"model\": \"opus\", \"permissions\": {\"allow\": [\"Bash(ls)\",],},}'') =
        (0,
         AList.update example_output
           (File (json_dumps
              (JObj [(''model'', JStr ''opus''),
                     (''permissions'',
                      JObj [(''allow'',
                             JArr [JStr ''Bash(ls)'', JStr ''Read(*.py)'', JStr ''Write(*.md)'']),
                            (''deny'', JArr []), (''ask'', JArr [])])]) @ [CHR 0x0A]))
           (with_output ''{\"model\": \"opus\", \"permissions\": {\"allow\": [\"Bash(ls)\",],},}''),
         log1) \<and>
      main json_loads json_dumps example_root example_output False
        (AList.update example_output
           (File (json_dumps
              (JObj [(''model'', JStr ''opus''),
                     (''permissions'',
                      JObj [(''allow'',
                             JArr [JStr ''Bash(ls)'', JStr ''Read(*.py)'', JStr ''Write(*.md)'']),
                            (''deny'', JArr []), (''ask'', JArr [])])]) @ [CHR 0x0A]))
           (with_output ''{\"model\": \"opus\", \"permissions\": {\"allow\": [\"Bash(ls)\",],},}'')) =
        (0,
         AList.update example_output
           (File (json_dumps
              (JObj [(''model'', JStr ''opus''),
                     (''permissions'',
                      JObj [(''allow'',
                             JArr [JStr ''Bash(ls)'', JStr ''Read(*.py)'', JStr ''Write(*.md)'']),
                            (''deny'', JArr []), (''ask'', JArr [])])]) @ [CHR 0x0A]))
           (with_output ''{\"model\": \"opus\", \"permissions\": {\"allow\": [\"Bash(ls)\",],},}''),
         pre @ [NoNewPermissions, SuccessfullyUpdated example_output, TotalUnique n, s]))"
proof -
  let ?fs = "with_output ''{\"model\": \"opus\", \"permissions\": {\"allow\": [\"Bash(ls)\",],},}''"
  let ?d = "JObj [(''model'', JStr ''opus''),
                  (''permissions'', JObj [(''allow'', JArr [JStr ''Bash(ls)''])])]"
  let ?doc = "JObj [(''model'', JStr ''opus''),
                    (''permissions'',
                     JObj [(''allow'',
                            JArr [JStr ''Bash(ls)'', JStr ''Read(*.py)'', JStr ''Write(*.md)'']),
                           (''deny'', JArr []), (''ask'', JArr [])])]"
  let ?fs1 = "AList.update example_output (File (json_dumps ?doc @ [CHR 0x0A])) ?fs"
  have r: "is_dir ?fs example_root" by code_simp
  have w: "can_write ?fs example_output" by code_simp
  have nm: "\<not> matches_pattern example_root example_output" by code_simp
  have "list_all (\<lambda>f. list_all is_str (fst (extract_allow_permissions json_loads ?fs f)))
          (find_settings_files ?fs example_root)" by code_simp
  then have t: "\<forall>f \<in> set (find_settings_files ?fs example_root).
                  list_all is_str (fst (extract_allow_permissions json_loads ?fs f))"
    by (simp add: list_all_iff)
  have e: "existing_document json_loads ?fs example_output = Some ?d" by code_simp
  have sd: "settings_document ?d" by code_simp
  have td: "\<forall>d. existing_document json_loads ?fs example_output = Some d \<longrightarrow> settings_document d"
    using e sd by simp
  have "JStr ''Read(*.py)'' \<in> extracted json_loads ?fs (find_settings_files ?fs example_root)"
    by code_simp
  then have ne: "extracted json_loads ?fs (find_settings_files ?fs example_root) \<noteq> {}" by blast
  have ns: "new_settings json_loads ?fs example_output
              (fst (merge_permissions json_loads ?fs (find_settings_files ?fs example_root)
                      example_root)) = Inr ?doc" by code_simp
  have rt: "json_loads (json_dumps ?doc @ [CHR 0x0A]) = Inr ?doc" by code_simp
  have f1: "?fs1 = AList.update example_output (File (json_dumps ?doc @ [CHR 0x0A])) ?fs"
    by (rule refl)
  obtain log1 pre n s where
    "main json_loads json_dumps example_root example_output False ?fs = (0, ?fs1, log1)"
    "main json_loads json_dumps example_root example_output False ?fs1 =
       (0, ?fs1, pre @ [NoNewPermissions, SuccessfullyUpdated example_output, TotalUnique n, s])"
    using second_run_adds_nothing [where loads = json_loads and dumps = json_dumps
        and verbose = False, OF r w nm t td ne ns rt f1] by blast
  then have "\<exists>log1 pre n s.
      main json_loads json_dumps example_root example_output False ?fs = (0, ?fs1, log1) \<and>
      main json_loads json_dumps example_root example_output False ?fs1 =
        (0, ?fs1, pre @ [NoNewPermissions, SuccessfullyUpdated example_output, TotalUnique n, s])"
    by (intro exI [of _ log1] exI [of _ pre] exI [of _ n] exI [of _ s] conjI)
  with r w nm e sd rt show ?thesis by (intro conjI)
qed

lemma read_existing_unparseable:
  assumes "read_text fs out = Inr content" and "loads content = Inl e1"
    and "loads (strip_trailing_commas content) = Inl e2"
  shows "read_existing loads fs out =
           (JObj [], [], [CouldNotParse (JSONDecodeError e2), WillPreserveOtherSettings])"
proof -
  have "path_exists fs out" using assms(1) by (rule read_text_exists)
  then show ?thesis
    using assms by (simp add: read_existing_def load_existing_def could_not_parse_def)
qed

text \<open>
  C2. The claim: when the output file exists and its text fails the direct parse and the
  parse after the repair pass, the writer warns and the written document still has the
  settings of the existing file other than \<^verbatim>\<open>permissions\<close>. The code warns, with
  ``Will preserve other settings but reset permissions'' (line 145), but
  \<open>existing_settings\<close> is still the empty dictionary of line 106 when the handler of
  line 140 is reached: what is written is \<^verbatim>\<open>permissions\<close> alone, whatever the file held.
\<close>

theorem unparseable_output_is_discarded:
  assumes "read_text fs output_path = Inr content"
    and "loads content = Inl e1"
    and "loads (strip_trailing_commas content) = Inl e2"
    and "list_all is_str permissions"
    and "can_write fs output_path"
  shows "\<exists>rest.
           update_settings_file loads dumps output_path permissions fs =
             (None,
              AList.update output_path
                (File (dumps
                   (JObj [(''permissions'',
                           JObj [(''allow'',
                                  JArr (map JStr (sorted_list_of_set (str_of ` set permissions)))),
                                 (''deny'', JArr []), (''ask'', JArr [])])]) @ [CHR 0x0A])) fs,
              CouldNotParse (JSONDecodeError e2) # WillPreserveOtherSettings # rest)"
proof -
  let ?xs = "sorted_list_of_set (str_of ` set permissions)"
  let ?doc = "JObj (AList.update ''permissions'' (new_permissions_object (map JStr ?xs) []) [])"
  have r: "read_existing loads fs output_path =
             (JObj [], [], [CouldNotParse (JSONDecodeError e2), WillPreserveOtherSettings])"
    using assms(1-3) by (rule read_existing_unparseable)
  have p: "permissions_of [] = JObj []" by (simp add: permissions_of_def)
  have m: "merged_settings (JObj []) [] permissions = Inr ?doc"
    using merged_settings_strings [OF p _ _ assms(4), of "[]"] by simp
  have d: "?doc = JObj [(''permissions'',
                         JObj [(''allow'', JArr (map JStr ?xs)), (''deny'', JArr []),
                               (''ask'', JArr [])])]"
    by (rule fresh_document)
  show ?thesis
    using update_settings_file_log [OF r m assms(5), of dumps] unfolding d by simp
qed

theorem unparseable_output_is_discarded_witness:
  "read_text (with_output ''{\"theme\": \"dark\", \"permissions\": {\"deny\": [\"Bash(rm)\"]}'')
     example_output =
     Inr ''{\"theme\": \"dark\", \"permissions\": {\"deny\": [\"Bash(rm)\"]}'' \<and>
   json_loads ''{\"theme\": \"dark\", \"permissions\": {\"deny\": [\"Bash(rm)\"]}'' =
     Inl ''Expecting value'' \<and>
   json_loads
     (strip_trailing_commas
        ''{\"theme\": \"dark\", \"permissions\": {\"deny\": [\"Bash(rm)\"]}'') =
     Inl ''Expecting value'' \<and>
   can_write (with_output ''{\"theme\": \"dark\", \"permissions\": {\"deny\": [\"Bash(rm)\"]}'')
     example_output \<and>
   (\<exists>rest.
      update_settings_file json_loads json_dumps example_output [JStr ''Edit'']
        (with_output ''{\"theme\": \"dark\", \"permissions\": {\"deny\": [\"Bash(rm)\"]}'') =
        (None,
         AList.update example_output
           (File (json_dumps
              (JObj [(''permissions'',
                      JObj [(''allow'', JArr [JStr ''Edit'']), (''deny'', JArr []),
                            (''ask'', JArr [])])]) @ [CHR 0x0A]))
           (with_output ''{\"theme\": \"dark\", \"permissions\": {\"deny\": [\"Bash(rm)\"]}''),
         CouldNotParse (JSONDecodeError ''Expecting value'') # WillPreserveOtherSettings # rest))"
proof -
  let ?c = "''{\"theme\": \"dark\", \"permissions\": {\"deny\": [\"Bash(rm)\"]}''"
  let ?fs = "with_output ?c"
  have r: "read_text ?fs example_output = Inr ?c" by code_simp
  have l1: "json_loads ?c = Inl ''Expecting value''" by code_simp
  have l2: "json_loads (strip_trailing_commas ?c) = Inl ''Expecting value''" by code_simp
  have p: "list_all is_str [JStr ''Edit'']" by simp
  have w: "can_write ?fs example_output" by code_simp
  have s: "map JStr (sorted_list_of_set (str_of ` set [JStr ''Edit''])) = [JStr ''Edit'']"
    by simp
  note th = unparseable_output_is_discarded [where loads = json_loads and dumps = json_dumps,
      OF r l1 l2 p w, unfolded s]
  with r l1 l2 w show ?thesis by (intro conjI)
qed

subsection \<open>The layout of the printed text\<close>

lemma indent2_Nil [simp]: "indent2 [] = []"
  by (simp add: indent2_def)

lemma indent2_append [simp]: "indent2 (a @ b) = indent2 a @ indent2 b"
  by (simp add: indent2_def)


lemma indent2_concat: "indent2 (concat xss) = concat (map indent2 xss)"
  by (induction xss) simp_all





















end
